theory Spec2Isabelle
  imports Main "HOL-Library.Sublist" "HOL-Library.Char_ord" "HOL-Library.List_Lexorder"
begin

section \<open>Python string operations used by the scraper\<close>

text \<open>
  Strings are character lists. The operations below are the built-in \<^verbatim>\<open>str\<close>
  methods and the one regular-expression substitution the scraper calls.
\<close>

definition startswith :: "string \<Rightarrow> string \<Rightarrow> bool" where
  "startswith s p = prefix p s"

definition endswith :: "string \<Rightarrow> string \<Rightarrow> bool" where
  "endswith s p = suffix p s"

text \<open>\<^verbatim>\<open>s.split(c)[0]\<close>: the text before the first occurrence of \<open>c\<close>.\<close>

definition split_head :: "char \<Rightarrow> string \<Rightarrow> string" where
  "split_head c s = takeWhile (\<lambda>x. x \<noteq> c) s"

text \<open>\<^verbatim>\<open>s.replace(old, new, 1)\<close>: only the leftmost occurrence is replaced.\<close>

fun replace_first :: "string \<Rightarrow> string \<Rightarrow> string \<Rightarrow> string" where
  "replace_first old new [] = (if old = [] then new else [])"
| "replace_first old new (c # cs) =
     (if prefix old (c # cs) then new @ drop (length old) (c # cs)
      else c # replace_first old new cs)"

text \<open>\<^verbatim>\<open>s.replace(old, new)\<close>: every non-overlapping occurrence, left to right.\<close>

function replace_all :: "string \<Rightarrow> string \<Rightarrow> string \<Rightarrow> string" where
  "replace_all old new s =
     (if old = [] then new @ concat (map (\<lambda>c. c # new) s)
      else if s = [] then []
      else if prefix old s then new @ replace_all old new (drop (length old) s)
      else hd s # replace_all old new (tl s))"
  by pat_completeness auto
termination
  by (relation "measure (\<lambda>(old, new, s). length s)") auto

declare replace_all.simps [simp del]

text \<open>\<^verbatim>\<open>s.strip(c)\<close> for a single character \<open>c\<close>.\<close>

definition strip :: "char \<Rightarrow> string \<Rightarrow> string" where
  "strip c s = rev (dropWhile (\<lambda>x. x = c) (rev (dropWhile (\<lambda>x. x = c) s)))"

text \<open>The character class \<^verbatim>\<open>[a-zA-Z0-9_-]\<close>.\<close>

definition safe_char :: "char \<Rightarrow> bool" where
  "safe_char c \<longleftrightarrow>
     (CHR ''a'' \<le> c \<and> c \<le> CHR ''z'') \<or> (CHR ''A'' \<le> c \<and> c \<le> CHR ''Z'') \<or>
     (CHR ''0'' \<le> c \<and> c \<le> CHR ''9'') \<or> c = CHR ''_'' \<or> c = CHR ''-''"

text \<open>\<^verbatim>\<open>re.sub(r'[^a-zA-Z0-9_-]', '', s)\<close>.\<close>

definition re_sub_unsafe :: "string \<Rightarrow> string" where
  "re_sub_unsafe s = filter safe_char s"

section \<open>The parsed page\<close>

text \<open>
  A parsed page is a tree of tags and text nodes. Every tag carries an identity, as the
  objects of the parse tree do: \<^verbatim>\<open>select\<close> hands out references to tags of the tree and
  \<^verbatim>\<open>decompose\<close> removes the referenced tag from it.
\<close>

datatype node =
    Tag nat string "(string \<times> string) list" "node list"
  | NavigableString string

fun ident :: "node \<Rightarrow> nat option" where
  "ident (Tag i n a cs) = Some i"
| "ident (NavigableString s) = None"

text \<open>All nodes below a node, in document order; the node itself is not among them.\<close>

fun descendants :: "node \<Rightarrow> node list" where
  "descendants (Tag i n a cs) = concat (map (\<lambda>c. c # descendants c) cs)"
| "descendants (NavigableString s) = []"

text \<open>\<^verbatim>\<open>link['href']\<close> for the tags kept by \<^verbatim>\<open>find_all('a', href=True)\<close>.\<close>

fun a_href :: "node \<Rightarrow> string option" where
  "a_href (Tag i n a cs) = (if n = ''a'' then map_of a ''href'' else None)"
| "a_href (NavigableString s) = None"

definition find_all_a_href :: "node \<Rightarrow> string list" where
  "find_all_a_href t = List.map_filter a_href (descendants t)"

section \<open>Faults, collaborators and the plan\<close>

datatype exn =
    SelectorNotFoundError string string
  | OtherException string

text \<open>
  The fields of \<open>SelectorNotFoundError\<close> are \<^verbatim>\<open>selector\<close> and \<^verbatim>\<open>html_snippet\<close>.
  \<open>OtherException\<close> stands for every exception raised by a library, the network or the
  operating system.
\<close>

datatype plan_json = PlanJson
  (json_fetch_strategy: "string option")
  (json_nav_selector: "string option")
  (json_content_selector: "string option")
  (json_elements_to_remove: "string list option")

text \<open>
  What a call of the generative model amounts to once the caller has searched the
  response text for a brace block and parsed it: the call raised, no block was found, the
  block did not parse, or a JSON object, of which only the four keys the callers read are
  kept (\<open>None\<close> for a missing key).
\<close>

datatype ai_reply = CallFailed | NoJsonBlock | JsonDecodeError | Json plan_json

record config =
  project_name :: string
  start_url :: string
  base_url :: string
  fetch_strategy :: string
  nav_selector :: string
  content_selector :: string
  elements_to_remove :: "string list"
  output_dir :: string

text \<open>The dataclass constructor; \<^verbatim>\<open>__post_init__\<close> derives the output directory.\<close>

definition Config ::
  "string \<Rightarrow> string \<Rightarrow> string \<Rightarrow> string \<Rightarrow> string \<Rightarrow> string \<Rightarrow> string list \<Rightarrow> config" where
  "Config pn su bu fs ns cs er =
     \<lparr>project_name = pn, start_url = su, base_url = bu, fetch_strategy = fs,
      nav_selector = ns, content_selector = cs, elements_to_remove = er,
      output_dir = ''scraped_docs_'' @ pn\<rparr>"

text \<open>
  The libraries and services the program calls are parameters of the model:
  the HTML parser, CSS selection on a parsed tree (which may raise), \<^verbatim>\<open>urljoin\<close> (which
  raises \<^verbatim>\<open>ValueError\<close> on a malformed link), the path component of
  \<^verbatim>\<open>urlparse\<close>, the Markdown conversion of a serialised tag, the HTTP session (status and
  body, or a transport error), the browser page (rendered markup, or an error), the order
  in which the concurrent static tasks complete, the browser rendering of the entry page
  and the two calls of the generative model (the planning prompt is built from the first
  8000 characters of the page; the correction prompt from the failed plan, the failed
  selector and the markup snippet).
\<close>

record libs =
  BeautifulSoup :: "string \<Rightarrow> node"
  select :: "string \<Rightarrow> node \<Rightarrow> exn + node list"
  urljoin :: "string \<Rightarrow> string \<Rightarrow> exn + string"
  urlparse_path :: "string \<Rightarrow> string"
  md_str :: "node \<Rightarrow> string"
  session_get :: "string \<Rightarrow> exn + nat \<times> string"
  page_goto_content :: "string \<Rightarrow> exn + string"
  gather_order :: "string list \<Rightarrow> string list"
  playwright_render :: "string \<Rightarrow> exn + string"
  generate_plan :: "string \<Rightarrow> ai_reply"
  generate_correction :: "config \<Rightarrow> string \<Rightarrow> string \<Rightarrow> ai_reply"

text \<open>\<^verbatim>\<open>select_one\<close> is the first element of the selection, or \<^verbatim>\<open>None\<close>.\<close>

definition select_one :: "libs \<Rightarrow> string \<Rightarrow> node \<Rightarrow> exn + node option" where
  "select_one L sel t =
     (case select L sel t of
        Inl e \<Rightarrow> Inl e
      | Inr [] \<Rightarrow> Inr None
      | Inr (x # xs) \<Rightarrow> Inr (Some x))"

section \<open>Link discovery\<close>

text \<open>
  The loop over the links of the navigation container. The Python set \<^verbatim>\<open>urls\<close> is a
  list without duplicates. An exception of \<^verbatim>\<open>urljoin\<close> is not caught: it ends the loop
  and leaves the function.
\<close>

fun collect_links :: "libs \<Rightarrow> config \<Rightarrow> string list \<Rightarrow> string list \<Rightarrow> exn + string list" where
  "collect_links L cfg urls [] = Inr urls"
| "collect_links L cfg urls (href # links) =
     (if startswith href ''#'' then collect_links L cfg urls links
      else
        (case urljoin L (base_url cfg) href of
           Inl e \<Rightarrow> Inl e
         | Inr absolute_url \<Rightarrow>
             let page_url = split_head CHR ''#'' absolute_url
             in collect_links L cfg
                  (if startswith page_url (base_url cfg) then List.insert page_url urls else urls)
                  links))"

definition get_all_doc_urls_from_html :: "libs \<Rightarrow> string \<Rightarrow> config \<Rightarrow> exn + string list" where
  "get_all_doc_urls_from_html L rendered_html cfg =
     (let soup = BeautifulSoup L rendered_html in
      case select_one L (nav_selector cfg) soup of
        Inl e \<Rightarrow> Inl e
      | Inr None \<Rightarrow> Inl (SelectorNotFoundError (nav_selector cfg) (take 2000 rendered_html))
      | Inr (Some nav_container) \<Rightarrow>
          (case collect_links L cfg [] (find_all_a_href nav_container) of
             Inl e \<Rightarrow> Inl e
           | Inr urls \<Rightarrow> Inr (sort urls)))"

section \<open>Files and the log\<close>

text \<open>
  The observable state: the files written (a Markdown artifact, or the project metadata
  with project name and start URL) and the log records at warning and error level,
  together with the three information records that mark an execution attempt, a repair
  request and the report of success. Directory creation and the remaining information
  records are left out; a file write is taken to succeed.
\<close>

datatype content = Markdown string | ProjectMeta string string

datatype level = INFO | WARNING | ERROR

datatype event =
    ContentNotFound string
  | StaticUrlFailed string exn
  | EmptyContentSkipped string
  | DynamicUrlFailed string exn
  | NoUrlsFound
  | RenderFailed exn
  | PlanNoJsonBlock
  | PlanJsonDecodeFailed
  | PlanJsonText
  | PlanFailed
  | SelfCorrectionStarted
  | CorrectionNoJsonBlock
  | CorrectionFailed
  | NoConfigOrHtml
  | AttemptStarted nat config
  | ExecutionFailed exn
  | RepairRequested
  | NoCorrectedPlan
  | GivingUp
  | ScrapeSucceeded

record world =
  files :: "string \<rightharpoonup> content"
  logs :: "(level \<times> event) list"

definition logging :: "level \<Rightarrow> event \<Rightarrow> world \<Rightarrow> world" where
  "logging lv ev w = w\<lparr>logs := logs w @ [(lv, ev)]\<rparr>"

definition write_file :: "string \<Rightarrow> content \<Rightarrow> world \<Rightarrow> world" where
  "write_file filepath c w = w\<lparr>files := (files w)(filepath \<mapsto> c)\<rparr>"

text \<open>\<^verbatim>\<open>os.path.join\<close> of two components.\<close>

definition path_join :: "string \<Rightarrow> string \<Rightarrow> string" where
  "path_join a b =
     (if startswith b ''/'' then b
      else if a = [] \<or> endswith a ''/'' then a @ b
      else a @ ''/'' @ b)"

section \<open>File names\<close>

definition generate_safe_filename :: "libs \<Rightarrow> string \<Rightarrow> config \<Rightarrow> string" where
  "generate_safe_filename L url cfg =
     (let path = replace_first (urlparse_path L (base_url cfg)) [] (urlparse_path L url);
          safe_name = strip CHR ''_'' (replace_all ''.html'' [] (replace_all ''/'' ''_'' path));
          safe_name = re_sub_unsafe safe_name
      in (if safe_name = [] then ''index'' else safe_name) @ ''.md'')"

section \<open>Content extraction\<close>

text \<open>
  \<^verbatim>\<open>element.decompose()\<close> takes the referenced tag, with everything below it, out of the
  tree. A reference to a tag that went away with an enclosing tag leaves the tree as it is.
\<close>

fun is_ref :: "nat \<Rightarrow> node \<Rightarrow> bool" where
  "is_ref i (Tag j n a cs) = (i = j)"
| "is_ref i (NavigableString s) = False"

fun detach :: "nat \<Rightarrow> node \<Rightarrow> node" where
  "detach i (Tag j n a cs) = Tag j n a (map (detach i) (filter (\<lambda>c. \<not> is_ref i c) cs))"
| "detach i (NavigableString s) = NavigableString s"

definition decompose :: "node \<Rightarrow> node \<Rightarrow> node" where
  "decompose element t = (case ident element of Some i \<Rightarrow> detach i t | None \<Rightarrow> t)"

text \<open>The two nested loops over the noise selectors and the elements each one selects.\<close>

fun remove_elements :: "libs \<Rightarrow> string list \<Rightarrow> node \<Rightarrow> exn + node" where
  "remove_elements L [] main_content = Inr main_content"
| "remove_elements L (selector # rest) main_content =
     (case select L selector main_content of
        Inl e \<Rightarrow> Inl e
      | Inr elements \<Rightarrow>
          remove_elements L rest (foldl (\<lambda>t element. decompose element t) main_content elements))"

definition clean_and_convert ::
  "libs \<Rightarrow> string \<Rightarrow> config \<Rightarrow> world \<Rightarrow> (exn + string) \<times> world" where
  "clean_and_convert L html_content cfg w =
     (let soup = BeautifulSoup L html_content in
      case select_one L (content_selector cfg) soup of
        Inl e \<Rightarrow> (Inl e, w)
      | Inr None \<Rightarrow> (Inr [], logging WARNING (ContentNotFound (content_selector cfg)) w)
      | Inr (Some main_content) \<Rightarrow>
          (case remove_elements L (elements_to_remove cfg) main_content of
             Inl e \<Rightarrow> (Inl e, w)
           | Inr cleaned \<Rightarrow> (Inr (md_str L cleaned), w)))"

section \<open>Fetching and saving\<close>

text \<open>
  One static task. \<^verbatim>\<open>raise_for_status\<close> raises for a status of 400 or more; every
  exception ends in the warning of the handler. The effects of a task on files and log
  happen in one step between two suspension points.
\<close>

definition fetch_and_save_static :: "libs \<Rightarrow> string \<Rightarrow> config \<Rightarrow> world \<Rightarrow> world" where
  "fetch_and_save_static L url cfg w =
     (case session_get L url of
        Inl e \<Rightarrow> logging WARNING (StaticUrlFailed url e) w
      | Inr (status, html) \<Rightarrow>
          if 400 \<le> status
          then logging WARNING (StaticUrlFailed url (OtherException ''ClientResponseError'')) w
          else
            (case clean_and_convert L html cfg w of
               (Inl e, w') \<Rightarrow> logging WARNING (StaticUrlFailed url e) w'
             | (Inr markdown_content, w') \<Rightarrow>
                 if markdown_content = [] then w'
                 else
                   let filename = generate_safe_filename L url cfg;
                       filepath = path_join (output_dir cfg) filename
                   in write_file filepath (Markdown markdown_content) w'))"

definition fetch_and_save_dynamic :: "libs \<Rightarrow> string \<Rightarrow> config \<Rightarrow> world \<Rightarrow> world" where
  "fetch_and_save_dynamic L url cfg w =
     (case page_goto_content L url of
        Inl e \<Rightarrow> logging ERROR (DynamicUrlFailed url e) w
      | Inr html \<Rightarrow>
          (case clean_and_convert L html cfg w of
             (Inl e, w') \<Rightarrow> logging ERROR (DynamicUrlFailed url e) w'
           | (Inr markdown_content, w') \<Rightarrow>
               if markdown_content = [] then logging WARNING (EmptyContentSkipped url) w'
               else
                 let filename = generate_safe_filename L url cfg;
                     filepath = path_join (output_dir cfg) filename
                 in write_file filepath (Markdown markdown_content) w'))"

text \<open>
  The dynamic strategy visits the URLs in list order; the static tasks take effect in the
  order in which they complete. Creating the output directory and opening the browser or
  the HTTP session are taken to succeed.
\<close>

definition execute_scrape ::
  "libs \<Rightarrow> string \<Rightarrow> config \<Rightarrow> world \<Rightarrow> (exn + unit) \<times> world" where
  "execute_scrape L rendered_html cfg w =
     (case get_all_doc_urls_from_html L rendered_html cfg of
        Inl e \<Rightarrow> (Inl e, w)
      | Inr doc_urls \<Rightarrow>
          if doc_urls = [] then (Inr (), logging ERROR NoUrlsFound w)
          else if fetch_strategy cfg = ''dynamic''
          then (Inr (), foldl (\<lambda>w url. fetch_and_save_dynamic L url cfg w) w doc_urls)
          else (Inr (), foldl (\<lambda>w url. fetch_and_save_static L url cfg w) w
                          (gather_order L doc_urls)))"

section \<open>Planning and correction by the generative model\<close>

definition plan_from_html ::
  "libs \<Rightarrow> string \<Rightarrow> string \<Rightarrow> string \<Rightarrow> world \<Rightarrow> config option \<times> world" where
  "plan_from_html L pn su rendered_html w =
     (case generate_plan L (take 8000 rendered_html) of
        CallFailed \<Rightarrow> (None, logging ERROR PlanFailed w)
      | NoJsonBlock \<Rightarrow> (None, logging ERROR PlanNoJsonBlock w)
      | JsonDecodeError \<Rightarrow>
          (None, logging ERROR PlanJsonText (logging ERROR PlanJsonDecodeFailed w))
      | Json config_data \<Rightarrow>
          let bu = (if \<not> endswith su ''/'' then su @ ''/'' else su) in
          (case (json_fetch_strategy config_data, json_nav_selector config_data,
                 json_content_selector config_data, json_elements_to_remove config_data) of
             (Some fs, Some ns, Some cs, Some er) \<Rightarrow> (Some (Config pn su bu fs ns cs er), w)
           | _ \<Rightarrow> (None, logging ERROR PlanFailed w)))"

text \<open>
  The correction assigns to the fields of the failed plan one after the other, so the
  function returns the state of that object next to its result: a key missing from the
  reply leaves the earlier assignments in place and the result \<^verbatim>\<open>None\<close>.
\<close>

definition refine_and_correct_plan ::
  "libs \<Rightarrow> config \<Rightarrow> string \<times> string \<Rightarrow> world \<Rightarrow> (config option \<times> config) \<times> world" where
  "refine_and_correct_plan L failed_config error_info w =
     (let w1 = logging WARNING SelfCorrectionStarted w in
      case generate_correction L failed_config (fst error_info) (snd error_info) of
        CallFailed \<Rightarrow> ((None, failed_config), logging ERROR CorrectionFailed w1)
      | NoJsonBlock \<Rightarrow> ((None, failed_config), logging ERROR CorrectionNoJsonBlock w1)
      | JsonDecodeError \<Rightarrow> ((None, failed_config), logging ERROR CorrectionFailed w1)
      | Json config_data \<Rightarrow>
          (case json_nav_selector config_data of
             None \<Rightarrow> ((None, failed_config), logging ERROR CorrectionFailed w1)
           | Some ns \<Rightarrow>
               let c1 = failed_config\<lparr>nav_selector := ns\<rparr> in
               (case json_content_selector config_data of
                  None \<Rightarrow> ((None, c1), logging ERROR CorrectionFailed w1)
                | Some cs \<Rightarrow>
                    let c2 = c1\<lparr>content_selector := cs\<rparr> in
                    (case json_elements_to_remove config_data of
                       None \<Rightarrow> ((None, c2), logging ERROR CorrectionFailed w1)
                     | Some er \<Rightarrow>
                         let c3 = c2\<lparr>elements_to_remove := er\<rparr> in
                         ((Some c3, c3), w1)))))"

section \<open>The main coordinator\<close>

definition MAX_ATTEMPTS :: nat where
  "MAX_ATTEMPTS = 2"

definition get_html_with_playwright :: "libs \<Rightarrow> string \<Rightarrow> world \<Rightarrow> string option \<times> world" where
  "get_html_with_playwright L url w =
     (case playwright_render L url of
        Inl e \<Rightarrow> (None, logging ERROR (RenderFailed e) w)
      | Inr content \<Rightarrow> (Some content, w))"

definition save_project_metadata :: "config \<Rightarrow> world \<Rightarrow> world" where
  "save_project_metadata cfg w =
     write_file (path_join (output_dir cfg) ''.project_meta.json'')
       (ProjectMeta (project_name cfg) (start_url cfg)) w"

text \<open>
  How a run ends: the success report was reached, the run gave up after a selector fault
  (the return of the handler, or the end of the function after the loop was left),
  the entry page or the plan was not obtained, the configuration name is not a declared
  one, or an exception left the function.
\<close>

datatype outcome = Succeeded | Failed | NoHtml | NoPlan | UsageError | Raised exn

text \<open>
  The loop \<^verbatim>\<open>for attempt in range(MAX_ATTEMPTS)\<close> with its handler; \<open>auto\<close> tells whether
  the run was started in automatic mode.
\<close>

function attempt_loop ::
  "libs \<Rightarrow> bool \<Rightarrow> string \<Rightarrow> nat \<Rightarrow> config \<Rightarrow> world \<Rightarrow> outcome \<times> world" where
  "attempt_loop L auto rendered_html attempt cfg w =
     (if attempt < MAX_ATTEMPTS then
        (case execute_scrape L rendered_html cfg (logging INFO (AttemptStarted (attempt + 1) cfg) w) of
           (Inr u, w1) \<Rightarrow> (Succeeded, logging INFO ScrapeSucceeded (save_project_metadata cfg w1))
         | (Inl (SelectorNotFoundError sel snippet), w1) \<Rightarrow>
             if auto \<and> attempt < MAX_ATTEMPTS - 1 then
               (case refine_and_correct_plan L cfg (sel, snippet)
                       (logging INFO RepairRequested
                          (logging ERROR (ExecutionFailed (SelectorNotFoundError sel snippet)) w1)) of
                  ((Some corrected_config, c), w2) \<Rightarrow>
                    attempt_loop L auto rendered_html (attempt + 1) corrected_config w2
                | ((None, c), w2) \<Rightarrow> (Failed, logging ERROR NoCorrectedPlan w2))
             else (Failed, logging ERROR GivingUp w1)
         | (Inl (OtherException m), w1) \<Rightarrow> (Raised (OtherException m), w1))
      else (Failed, w))"
  by pat_completeness auto
termination
  by (relation "measure (\<lambda>(L, auto, rendered_html, attempt, cfg, w). MAX_ATTEMPTS - attempt)") auto

declare attempt_loop.simps [simp del]

datatype args = Manual string | Auto string string

definition main ::
  "libs \<Rightarrow> (string \<rightharpoonup> config) \<Rightarrow> args \<Rightarrow> world \<Rightarrow> outcome \<times> world" where
  "main L ALL_MANUAL_CONFIGS args w =
     (case args of
        Manual config_name \<Rightarrow>
          (case ALL_MANUAL_CONFIGS config_name of
             None \<Rightarrow> (UsageError, w)
           | Some cfg \<Rightarrow>
               (case get_html_with_playwright L (start_url cfg) w of
                  (None, w1) \<Rightarrow> (NoHtml, w1)
                | (Some rendered_html, w1) \<Rightarrow>
                    if rendered_html = [] then (NoHtml, w1)
                    else attempt_loop L False rendered_html 0 cfg w1))
      | Auto url name \<Rightarrow>
          (case get_html_with_playwright L url w of
             (None, w1) \<Rightarrow> (NoHtml, w1)
           | (Some rendered_html, w1) \<Rightarrow>
               if rendered_html = [] then (NoHtml, w1)
               else
                 (case plan_from_html L name url rendered_html w1 of
                    (None, w2) \<Rightarrow> (NoPlan, w2)
                  | (Some cfg, w2) \<Rightarrow> attempt_loop L True rendered_html 0 cfg w2)))"

text \<open>The plan declared in \<^verbatim>\<open>manual_configs.py\<close>.\<close>

definition ROS_HUMBLE_CONFIG :: config where
  "ROS_HUMBLE_CONFIG =
     Config ''ros_humble_manual'' ''https://docs.ros.org/en/humble/index.html''
       ''https://docs.ros.org/en/humble/'' ''static'' ''div.wy-menu-vertical''
       ''div[role='main']'' [''div.admonition-warning'', ''a.headerlink'']"

section \<open>A sample site\<close>

text \<open>
  A concrete instance of the collaborators, on which the model is run. Selection covers
  the selectors of the two forms \<^verbatim>\<open>E\<close> (the tags named \<open>E\<close>) and \<^verbatim>\<open>E:first-child\<close>
  (those of them that are the first tag among the children of their parent), joining
  covers absolute links, links that start with one or two slashes and plain relative
  names against an absolute base, the path is that of an absolute URL, and the conversion
  keeps the text of the tag. The pages are given by their parse trees.
\<close>

fun tags_below :: "node \<Rightarrow> (bool \<times> node) list"
  and tags_among :: "bool \<Rightarrow> node list \<Rightarrow> (bool \<times> node) list" where
  "tags_below (Tag i n a cs) = tags_among True cs"
| "tags_below (NavigableString s) = []"
| "tags_among first [] = []"
| "tags_among first (NavigableString s # cs) = tags_among first cs"
| "tags_among first (Tag i n a ds # cs) =
     (first, Tag i n a ds) # tags_among True ds @ tags_among False cs"

fun tag_name :: "node \<Rightarrow> string" where
  "tag_name (Tag i n a cs) = n"
| "tag_name (NavigableString s) = []"

definition css_select :: "string \<Rightarrow> node \<Rightarrow> exn + node list" where
  "css_select sel t =
     (if endswith sel '':first-child''
      then Inr (map snd (filter (\<lambda>(first, e). first \<and> tag_name e @ '':first-child'' = sel)
                  (tags_below t)))
      else Inr (map snd (filter (\<lambda>(first, e). tag_name e = sel) (tags_below t))))"

fun after_scheme :: "string \<Rightarrow> string option" where
  "after_scheme [] = None"
| "after_scheme (c # cs) =
     (if prefix ''://'' (c # cs) then Some (drop 3 (c # cs)) else after_scheme cs)"

definition in_netloc :: "char \<Rightarrow> bool" where
  "in_netloc c \<longleftrightarrow> c \<noteq> CHR ''/'' \<and> c \<noteq> CHR ''?'' \<and> c \<noteq> CHR ''#''"

definition http_path :: "string \<Rightarrow> string" where
  "http_path u =
     takeWhile (\<lambda>c. c \<noteq> CHR ''?'' \<and> c \<noteq> CHR ''#'')
       (case after_scheme u of None \<Rightarrow> u | Some r \<Rightarrow> dropWhile in_netloc r)"

definition http_origin :: "string \<Rightarrow> string" where
  "http_origin u =
     (case after_scheme u of
        None \<Rightarrow> []
      | Some r \<Rightarrow> take (length u - length (dropWhile in_netloc r)) u)"

text \<open>
  The network location of a link that has one: the text after a leading \<^verbatim>\<open>//\<close> or after
  the scheme, up to the path. \<^verbatim>\<open>urljoin\<close> raises \<^verbatim>\<open>ValueError\<close> for a network location
  with one square bracket and not the other.
\<close>

definition href_netloc :: "string \<Rightarrow> string option" where
  "href_netloc href =
     (if startswith href ''//'' then Some (takeWhile in_netloc (drop 2 href))
      else map_option (takeWhile in_netloc) (after_scheme href))"

definition one_bracket :: "string \<Rightarrow> bool" where
  "one_bracket n \<longleftrightarrow> (CHR ''['' \<in> set n) \<noteq> (CHR '']'' \<in> set n)"

definition http_join :: "string \<Rightarrow> string \<Rightarrow> exn + string" where
  "http_join base href =
     (case href_netloc href of
        Some n \<Rightarrow>
          if one_bracket n then Inl (OtherException ''ValueError'')
          else if startswith href ''//'' then Inr (takeWhile (\<lambda>c. c \<noteq> CHR '':'') base @ '':'' @ href)
          else Inr href
      | None \<Rightarrow>
          if startswith href ''/'' then Inr (http_origin base @ href)
          else Inr (rev (dropWhile (\<lambda>c. c \<noteq> CHR ''/'') (rev base)) @ href))"

fun text_of :: "node \<Rightarrow> string" where
  "text_of (Tag i n a cs) = concat (map text_of cs)"
| "text_of (NavigableString s) = s"

text \<open>
  The entry page of \<^verbatim>\<open>https://x/\<close>: a navigation bar with the links
  \<^verbatim>\<open>/a.html#intro\<close>, \<^verbatim>\<open>/b.html\<close>, \<^verbatim>\<open>/a.html\<close> and \<^verbatim>\<open>/c.html\<close>.
\<close>

definition entry_html :: string where
  "entry_html = ''<nav><a href=/a.html#intro>A</a><a href=/b.html>B</a><a href=/a.html>A</a><a href=/c.html>C</a></nav>''"

definition entry_page :: node where
  "entry_page =
     Tag 0 ''[document]'' []
       [Tag 1 ''nav'' []
          [Tag 2 ''a'' [(''href'', ''/a.html#intro'')] [NavigableString ''A''],
           Tag 3 ''a'' [(''href'', ''/b.html'')] [NavigableString ''B''],
           Tag 4 ''a'' [(''href'', ''/a.html'')] [NavigableString ''A''],
           Tag 5 ''a'' [(''href'', ''/c.html'')] [NavigableString ''C'']]]"

text \<open>
  The entry page of \<^verbatim>\<open>https://y/\<close>: its navigation bar links to an anchor of the page
  and to another site only.
\<close>

definition offsite_html :: string where
  "offsite_html = ''<nav><a href=#top>Top</a><a href=https://z/x.html>X</a></nav>''"

definition offsite_page :: node where
  "offsite_page =
     Tag 0 ''[document]'' []
       [Tag 1 ''nav'' []
          [Tag 2 ''a'' [(''href'', ''#top'')] [NavigableString ''Top''],
           Tag 3 ''a'' [(''href'', ''https://z/x.html'')] [NavigableString ''X'']]]"

text \<open>
  The entry page of \<^verbatim>\<open>https://w/\<close>: its navigation bar links to \<^verbatim>\<open>/a/b.html\<close> and
  \<^verbatim>\<open>/a_b.html\<close>.
\<close>

definition clash_html :: string where
  "clash_html = ''<nav><a href=/a/b.html>1</a><a href=/a_b.html>2</a></nav>''"

definition clash_page :: node where
  "clash_page =
     Tag 0 ''[document]'' []
       [Tag 1 ''nav'' []
          [Tag 2 ''a'' [(''href'', ''/a/b.html'')] [NavigableString ''1''],
           Tag 3 ''a'' [(''href'', ''/a_b.html'')] [NavigableString ''2'']]]"

text \<open>
  An entry page whose navigation bar has one link, \<^verbatim>\<open>//[\<close>, a network location with
  an opening bracket only.
\<close>

definition bracket_html :: string where
  "bracket_html = ''<nav><a href=//[>x</a></nav>''"

definition bracket_page :: node where
  "bracket_page =
     Tag 0 ''[document]'' []
       [Tag 1 ''nav'' [] [Tag 2 ''a'' [(''href'', ''//['')] [NavigableString ''x'']]]"

text \<open>A content page: a heading and two paragraphs inside \<^verbatim>\<open>main\<close>.\<close>

definition article_html :: string where
  "article_html = ''<main><h1>T</h1><p>a</p><p>b</p></main>''"

definition article_region :: node where
  "article_region =
     Tag 1 ''main'' []
       [Tag 2 ''h1'' [] [NavigableString ''T''],
        Tag 3 ''p'' [] [NavigableString ''a''],
        Tag 4 ''p'' [] [NavigableString ''b'']]"

definition article_page :: node where
  "article_page = Tag 0 ''[document]'' [] [article_region]"

text \<open>A content page whose \<^verbatim>\<open>main\<close> is empty, and a page without \<^verbatim>\<open>main\<close>.\<close>

definition blank_html :: string where
  "blank_html = ''<main></main>''"

definition blank_page :: node where
  "blank_page = Tag 0 ''[document]'' [] [Tag 1 ''main'' [] []]"

definition bare_html :: string where
  "bare_html = ''<div>x</div>''"

definition bare_page :: node where
  "bare_page = Tag 0 ''[document]'' [] [Tag 1 ''div'' [] [NavigableString ''x'']]"

text \<open>A second content page: one paragraph inside \<^verbatim>\<open>main\<close>.\<close>

definition note_html :: string where
  "note_html = ''<main><p>n</p></main>''"

definition note_page :: node where
  "note_page =
     Tag 0 ''[document]'' [] [Tag 1 ''main'' [] [Tag 2 ''p'' [] [NavigableString ''n'']]]"

text \<open>
  A third content page: a heading, two paragraphs and a box with one paragraph inside
  \<^verbatim>\<open>main\<close>.
\<close>

definition guide_html :: string where
  "guide_html = ''<main><h1>T</h1><p>a</p><p>b</p><div><p>c</p></div></main>''"

definition guide_region :: node where
  "guide_region =
     Tag 1 ''main'' []
       [Tag 2 ''h1'' [] [NavigableString ''T''],
        Tag 3 ''p'' [] [NavigableString ''a''],
        Tag 4 ''p'' [] [NavigableString ''b''],
        Tag 5 ''div'' [] [Tag 6 ''p'' [] [NavigableString ''c'']]]"

definition guide_page :: node where
  "guide_page = Tag 0 ''[document]'' [] [guide_region]"

definition sample_parse :: "string \<Rightarrow> node" where
  "sample_parse html =
     (if html = entry_html then entry_page
      else if html = offsite_html then offsite_page
      else if html = clash_html then clash_page
      else if html = bracket_html then bracket_page
      else if html = article_html then article_page
      else if html = blank_html then blank_page
      else if html = bare_html then bare_page
      else if html = note_html then note_page
      else if html = guide_html then guide_page
      else Tag 0 ''[document]'' [] [])"

text \<open>
  The server answers \<^verbatim>\<open>/b.html\<close> with status 404, \<^verbatim>\<open>/blank.html\<close> with the empty
  content page, \<^verbatim>\<open>/bare.html\<close> with the page without \<^verbatim>\<open>main\<close>,
  \<^verbatim>\<open>/a_b.html\<close> with the second content page and everything else with the first
  content page.
\<close>

definition sample_get :: "string \<Rightarrow> exn + nat \<times> string" where
  "sample_get url =
     (if http_path url = ''/b.html'' then Inr (404, [])
      else if http_path url = ''/blank.html'' then Inr (200, blank_html)
      else if http_path url = ''/bare.html'' then Inr (200, bare_html)
      else if http_path url = ''/a_b.html'' then Inr (200, note_html)
      else Inr (200, article_html))"

definition sample_render :: "string \<Rightarrow> exn + string" where
  "sample_render url =
     (if url = ''https://x/'' then Inr entry_html
      else if url = ''https://y/'' then Inr offsite_html
      else if url = ''https://w/'' then Inr clash_html
      else Inl (OtherException ''TimeoutError''))"

text \<open>
  The generative model proposes the navigation selector \<^verbatim>\<open>aside\<close>, which no sample
  page has, and corrects it to \<^verbatim>\<open>nav\<close> when asked.
\<close>

definition sample_plan :: "string \<Rightarrow> ai_reply" where
  "sample_plan preview =
     Json (PlanJson (Some ''static'') (Some ''aside'') (Some ''main'') (Some [''h1'']))"

definition sample_correction :: "config \<Rightarrow> string \<Rightarrow> string \<Rightarrow> ai_reply" where
  "sample_correction failed sel snippet =
     Json (PlanJson (Some ''dynamic'') (Some ''nav'') (Some ''main'') (Some []))"

definition sample :: libs where
  "sample =
     \<lparr>BeautifulSoup = sample_parse, select = css_select, urljoin = http_join,
      urlparse_path = http_path, md_str = text_of, session_get = sample_get,
      page_goto_content = (\<lambda>url. map_sum id snd (sample_get url)),
      gather_order = (\<lambda>urls. urls), playwright_render = sample_render,
      generate_plan = sample_plan, generate_correction = sample_correction\<rparr>"

definition x_plan :: config where
  "x_plan = Config ''x'' ''https://x/'' ''https://x/'' ''static'' ''nav'' ''main'' []"

definition fresh :: world where
  "fresh = \<lparr>files = Map.empty, logs = []\<rparr>"

text \<open>
  Further plans for the sample sites: one with a navigation selector that no page has,
  its correction, and the plans for \<^verbatim>\<open>https://y/\<close> and \<^verbatim>\<open>https://w/\<close>.
\<close>

definition aside_plan :: config where
  "aside_plan = Config ''x'' ''https://x/'' ''https://x/'' ''static'' ''aside'' ''main'' [''h1'']"

definition nav_plan :: config where
  "nav_plan = aside_plan\<lparr>nav_selector := ''nav'', content_selector := ''main'', elements_to_remove := []\<rparr>"

definition y_plan :: config where
  "y_plan = Config ''y'' ''https://y/'' ''https://y/'' ''static'' ''nav'' ''main'' []"

definition w_plan :: config where
  "w_plan = Config ''w'' ''https://w/'' ''https://w/'' ''static'' ''nav'' ''main'' []"

section \<open>Notions used in the properties\<close>

text \<open>A URL is in the scope of a plan when it starts with the base URL and has no \<^verbatim>\<open>#\<close>.\<close>

definition in_scope :: "config \<Rightarrow> string \<Rightarrow> bool" where
  "in_scope cfg u \<longleftrightarrow> prefix (base_url cfg) u \<and> CHR ''#'' \<notin> set u"

text \<open>
  Plain page paths: the stem of such a path consists of letters, digits, hyphens and
  slashes, with a slash neither first nor last; the path is the stem followed by
  \<^verbatim>\<open>.html\<close>.
\<close>

definition stem_char :: "char \<Rightarrow> bool" where
  "stem_char c \<longleftrightarrow> (safe_char c \<and> c \<noteq> CHR ''_'') \<or> c = CHR ''/''"

definition plain_stem :: "string \<Rightarrow> bool" where
  "plain_stem s \<longleftrightarrow> s \<noteq> [] \<and> list_all stem_char s \<and> hd s \<noteq> CHR ''/'' \<and> last s \<noteq> CHR ''/''"

definition slash_to_underscore :: "char \<Rightarrow> char" where
  "slash_to_underscore c = (if c = CHR ''/'' then CHR ''_'' else c)"

text \<open>
  Every execution attempt and every call of the correction leaves a record in the log;
  the two counters below count them.
\<close>

fun is_attempt :: "level \<times> event \<Rightarrow> bool" where
  "is_attempt (lv, AttemptStarted n c) = True"
| "is_attempt (lv, ev) = False"

fun is_repair :: "level \<times> event \<Rightarrow> bool" where
  "is_repair (lv, SelfCorrectionStarted) = True"
| "is_repair (lv, ev) = False"

definition attempts_logged :: "world \<Rightarrow> nat" where
  "attempts_logged w = length (filter is_attempt (logs w))"

definition repairs_logged :: "world \<Rightarrow> nat" where
  "repairs_logged w = length (filter is_repair (logs w))"

text \<open>
  The tags a list of selected elements refers to, and the removal of a whole set of tags
  at once, to which the loop over the selected elements amounts.
\<close>

definition refs :: "node list \<Rightarrow> nat set" where
  "refs es = set (List.map_filter ident es)"

definition referenced :: "nat set \<Rightarrow> node \<Rightarrow> bool" where
  "referenced X c = (case ident c of Some i \<Rightarrow> i \<in> X | None \<Rightarrow> False)"

fun prune :: "nat set \<Rightarrow> node \<Rightarrow> node" where
  "prune X (Tag j n a cs) = Tag j n a (map (prune X) (filter (\<lambda>c. \<not> referenced X c) cs))"
| "prune X (NavigableString s) = NavigableString s"

section \<open>Properties of link discovery\<close>

lemma split_head_no_sep: "c \<notin> set (split_head c s)"
  unfolding split_head_def by (induction s) auto

lemma collect_links_keeps:
  assumes "collect_links L cfg urls hrefs = Inr out"
    and "distinct urls" and "list_all (in_scope cfg) urls"
  shows "distinct out \<and> list_all (in_scope cfg) out"
  using assms
proof (induction hrefs arbitrary: urls)
  case Nil
  then show ?case by simp
next
  case (Cons h hs)
  show ?case
  proof (cases "startswith h ''#''")
    case True
    with Cons.prems(1) have "collect_links L cfg urls hs = Inr out" by simp
    then show ?thesis using Cons.prems(2,3) by (rule Cons.IH)
  next
    case False
    show ?thesis
    proof (cases "urljoin L (base_url cfg) h")
      case (Inl e)
      with False Cons.prems(1) show ?thesis by simp
    next
      case (Inr a)
      let ?p = "split_head CHR ''#'' a"
      let ?urls = "if startswith ?p (base_url cfg) then List.insert ?p urls else urls"
      from False Inr Cons.prems(1) have c: "collect_links L cfg ?urls hs = Inr out"
        by (simp add: Let_def)
      have d: "distinct ?urls" using Cons.prems(2) by simp
      have "in_scope cfg ?p" if "startswith ?p (base_url cfg)"
        using that split_head_no_sep [of "CHR ''#''" a]
        by (simp only: in_scope_def startswith_def simp_thms)
      then have s: "list_all (in_scope cfg) ?urls"
        using Cons.prems(3) by (simp add: list_all_iff)
      from c d s show ?thesis by (rule Cons.IH)
    qed
  qed
qed

lemma collect_links_returns:
  assumes "\<forall>h \<in> set hrefs. \<not> startswith h ''#'' \<longrightarrow> (\<exists>u. urljoin L (base_url cfg) h = Inr u)"
  shows "\<exists>out. collect_links L cfg urls hrefs = Inr out"
  using assms
proof (induction hrefs arbitrary: urls)
  case Nil
  then show ?case by simp
next
  case (Cons h hs)
  from Cons.prems have rest:
    "\<forall>h \<in> set hs. \<not> startswith h ''#'' \<longrightarrow> (\<exists>u. urljoin L (base_url cfg) h = Inr u)"
    by simp
  show ?case
  proof (cases "startswith h ''#''")
    case True
    with Cons.IH [OF rest, of urls] show ?thesis by simp
  next
    case False
    with Cons.prems obtain a where a: "urljoin L (base_url cfg) h = Inr a" by auto
    let ?p = "split_head CHR ''#'' a"
    from Cons.IH [OF rest, of "if startswith ?p (base_url cfg) then List.insert ?p urls else urls"]
      False a
    show ?thesis by (simp add: Let_def)
  qed
qed

lemma select_one_first:
  "select L sel t = Inr (x # xs) \<Longrightarrow> select_one L sel t = Inr (Some x)"
  by (simp add: select_one_def)


lemma discover_with_nav:
  assumes "select L (nav_selector cfg) (BeautifulSoup L html) = Inr (nav # others)"
  shows "get_all_doc_urls_from_html L html cfg =
           (case collect_links L cfg [] (find_all_a_href nav) of
              Inl e \<Rightarrow> Inl e
            | Inr urls \<Rightarrow> Inr (sort urls))"
  using select_one_first [OF assms] by (simp add: get_all_doc_urls_from_html_def)

text \<open>
  Claim C2, as amended. Let the navigation selector of the plan select at least one element
  of the parsed page. Every list of URLs that link discovery returns has no duplicates,
  is in ascending lexicographic order, and each of its URLs starts with the base URL of
  the plan and contains no \<^verbatim>\<open>#\<close>. Link discovery returns such a list whenever
  \<^verbatim>\<open>urljoin\<close> raises on none of the links of the navigation container that do not start
  with \<^verbatim>\<open>#\<close>.
\<close>

theorem discover_sorted_distinct_in_scope:
  assumes "select L (nav_selector cfg) (BeautifulSoup L html) = Inr (nav # others)"
  shows "(\<forall>urls. get_all_doc_urls_from_html L html cfg = Inr urls \<longrightarrow>
            distinct urls \<and> sorted urls \<and>
            (\<forall>u \<in> set urls. startswith u (base_url cfg) \<and> CHR ''#'' \<notin> set u)) \<and>
         ((\<forall>href \<in> set (find_all_a_href nav).
             \<not> startswith href ''#'' \<longrightarrow> (\<exists>u. urljoin L (base_url cfg) href = Inr u)) \<longrightarrow>
          (\<exists>urls. get_all_doc_urls_from_html L html cfg = Inr urls))"
proof (intro conjI allI impI)
  fix urls
  assume r: "get_all_doc_urls_from_html L html cfg = Inr urls"
  then obtain found where f: "collect_links L cfg [] (find_all_a_href nav) = Inr found"
    and u: "urls = sort found"
    unfolding discover_with_nav [OF assms]
    by (cases "collect_links L cfg [] (find_all_a_href nav)") auto
  from collect_links_keeps [OF f] have d: "distinct found" and s: "list_all (in_scope cfg) found"
    by simp_all
  from d u show "distinct urls" by simp
  from u show "sorted urls" by simp
  from s u show "\<forall>u \<in> set urls. startswith u (base_url cfg) \<and> CHR ''#'' \<notin> set u"
    by (simp add: list_all_iff in_scope_def startswith_def)
next
  assume "\<forall>href \<in> set (find_all_a_href nav).
      \<not> startswith href ''#'' \<longrightarrow> (\<exists>u. urljoin L (base_url cfg) href = Inr u)"
  from collect_links_returns [OF this, of "[]"]
  show "\<exists>urls. get_all_doc_urls_from_html L html cfg = Inr urls"
    unfolding discover_with_nav [OF assms] by auto
qed

lemma sample_nav_found:
  "select sample (nav_selector x_plan) (BeautifulSoup sample entry_html) =
     Inr [Tag 1 ''nav'' []
            [Tag 2 ''a'' [(''href'', ''/a.html#intro'')] [NavigableString ''A''],
             Tag 3 ''a'' [(''href'', ''/b.html'')] [NavigableString ''B''],
             Tag 4 ''a'' [(''href'', ''/a.html'')] [NavigableString ''A''],
             Tag 5 ''a'' [(''href'', ''/c.html'')] [NavigableString ''C'']]]"
  by code_simp

lemma sample_links_join:
  "list_all (\<lambda>href. startswith href ''#'' \<or> \<not> isl (urljoin sample (base_url x_plan) href))
     (find_all_a_href
        (Tag 1 ''nav'' []
           [Tag 2 ''a'' [(''href'', ''/a.html#intro'')] [NavigableString ''A''],
            Tag 3 ''a'' [(''href'', ''/b.html'')] [NavigableString ''B''],
            Tag 4 ''a'' [(''href'', ''/a.html'')] [NavigableString ''A''],
            Tag 5 ''a'' [(''href'', ''/c.html'')] [NavigableString ''C'']]))"
  by code_simp

lemma sample_discovered:
  "get_all_doc_urls_from_html sample entry_html x_plan =
     Inr [''https://x/a.html'', ''https://x/b.html'', ''https://x/c.html'']"
  by code_simp

theorem discover_sorted_distinct_in_scope_witness:
  "get_all_doc_urls_from_html sample entry_html x_plan =
     Inr [''https://x/a.html'', ''https://x/b.html'', ''https://x/c.html''] \<and>
   distinct [''https://x/a.html'', ''https://x/b.html'', ''https://x/c.html''] \<and>
   sorted [''https://x/a.html'', ''https://x/b.html'', ''https://x/c.html''] \<and>
   list_all (\<lambda>u. startswith u (base_url x_plan) \<and> CHR ''#'' \<notin> set u)
     [''https://x/a.html'', ''https://x/b.html'', ''https://x/c.html''] \<and>
   (\<exists>urls. get_all_doc_urls_from_html sample entry_html x_plan = Inr urls)"
proof -
  note t = discover_sorted_distinct_in_scope [OF sample_nav_found]
  from t sample_discovered
  have p: "distinct [''https://x/a.html'', ''https://x/b.html'', ''https://x/c.html''] \<and>
      sorted [''https://x/a.html'', ''https://x/b.html'', ''https://x/c.html''] \<and>
      (\<forall>u \<in> set [''https://x/a.html'', ''https://x/b.html'', ''https://x/c.html''].
         startswith u (base_url x_plan) \<and> CHR ''#'' \<notin> set u)"
    by blast
  have "\<forall>href \<in> set (find_all_a_href
        (Tag 1 ''nav'' []
           [Tag 2 ''a'' [(''href'', ''/a.html#intro'')] [NavigableString ''A''],
            Tag 3 ''a'' [(''href'', ''/b.html'')] [NavigableString ''B''],
            Tag 4 ''a'' [(''href'', ''/a.html'')] [NavigableString ''A''],
            Tag 5 ''a'' [(''href'', ''/c.html'')] [NavigableString ''C'']])).
      \<not> startswith href ''#'' \<longrightarrow> (\<exists>u. urljoin sample (base_url x_plan) href = Inr u)"
  proof (intro ballI impI)
    fix href
    assume "href \<in> set (find_all_a_href
        (Tag 1 ''nav'' []
           [Tag 2 ''a'' [(''href'', ''/a.html#intro'')] [NavigableString ''A''],
            Tag 3 ''a'' [(''href'', ''/b.html'')] [NavigableString ''B''],
            Tag 4 ''a'' [(''href'', ''/a.html'')] [NavigableString ''A''],
            Tag 5 ''a'' [(''href'', ''/c.html'')] [NavigableString ''C'']]))"
      and "\<not> startswith href ''#''"
    with sample_links_join have "\<not> isl (urljoin sample (base_url x_plan) href)"
      unfolding list_all_iff by blast
    then show "\<exists>u. urljoin sample (base_url x_plan) href = Inr u"
      by (cases "urljoin sample (base_url x_plan) href") simp_all
  qed
  with t have e: "\<exists>urls. get_all_doc_urls_from_html sample entry_html x_plan = Inr urls"
    by blast
  from p e sample_discovered show ?thesis unfolding list_all_iff by blast
qed

text \<open>
  Claim C2 as stated fails: on the page whose navigation bar holds the link \<^verbatim>\<open>//[\<close> the
  navigation selector selects the bar, \<^verbatim>\<open>urljoin\<close> raises \<^verbatim>\<open>ValueError\<close> on the
  link, and link discovery returns no list.
\<close>

theorem discover_raises_on_malformed_link:
  "select sample (nav_selector x_plan) (BeautifulSoup sample bracket_html) =
     Inr [Tag 1 ''nav'' [] [Tag 2 ''a'' [(''href'', ''//['')] [NavigableString ''x'']]] \<and>
   urljoin sample (base_url x_plan) ''//['' = Inl (OtherException ''ValueError'') \<and>
   get_all_doc_urls_from_html sample bracket_html x_plan = Inl (OtherException ''ValueError'')"
  by code_simp




section \<open>Properties of planning\<close>

text \<open>
  Claim C10. Every plan that automatic planning returns has the start URL it was given,
  and its base URL is that start URL when the start URL ends with a slash and the start
  URL followed by one slash otherwise; so the base URL always starts with the start URL.
\<close>

theorem plan_base_url_from_start_url:
  assumes "plan_from_html L pn su html w = (Some cfg, w')"
  shows "start_url cfg = su \<and>
         base_url cfg = (if endswith su ''/'' then su else su @ ''/'') \<and>
         startswith (base_url cfg) su"
proof (cases "generate_plan L (take 8000 html)")
  case (Json d)
  obtain fs ns cs er where d: "d = PlanJson fs ns cs er" by (cases d)
  from assms Json d have "cfg = Config pn su (if \<not> endswith su ''/'' then su @ ''/'' else su)
      (the fs) (the ns) (the cs) (the er)"
    by (cases fs; cases ns; cases cs; cases er) (simp_all add: plan_from_html_def Let_def)
  then show ?thesis by (simp add: Config_def startswith_def)
qed (use assms in \<open>simp_all add: plan_from_html_def\<close>)

text \<open>
  A start URL that names a page: the base URL is the page name followed by a slash, and
  a sibling page of the site is outside that scope.
\<close>

lemma index_no_slash: "\<not> endswith ''https://x/index.html'' ''/''"
  by code_simp

lemma sample_plan_for_index:
  "plan_from_html sample ''x'' ''https://x/index.html'' entry_html fresh =
     (Some (Config ''x'' ''https://x/index.html'' ''https://x/index.html/'' ''static'' ''aside''
              ''main'' [''h1'']), fresh)"
  by (simp add: plan_from_html_def sample_def sample_plan_def index_no_slash)

lemma link_outside_index_scope: "\<not> startswith ''https://x/a.html'' ''https://x/index.html/''"
  by code_simp

theorem plan_base_url_from_start_url_witness:
  "plan_from_html sample ''x'' ''https://x/index.html'' entry_html fresh =
     (Some (Config ''x'' ''https://x/index.html'' ''https://x/index.html/'' ''static'' ''aside''
              ''main'' [''h1'']), fresh) \<and>
   base_url (Config ''x'' ''https://x/index.html'' ''https://x/index.html/'' ''static'' ''aside''
              ''main'' [''h1'']) = ''https://x/index.html'' @ ''/'' \<and>
   \<not> startswith ''https://x/a.html'' ''https://x/index.html/''"
  using plan_base_url_from_start_url [OF sample_plan_for_index] sample_plan_for_index
    index_no_slash link_outside_index_scope
  by (simp only: if_False simp_thms)

section \<open>Properties of content extraction and of the per-page tasks\<close>










section \<open>Properties of the attempt loop\<close>

lemma attempts_logging:
  "attempts_logged (logging lv ev w) = attempts_logged w + (if is_attempt (lv, ev) then 1 else 0)"
  by (simp add: attempts_logged_def logging_def)

lemma attempts_write_file: "attempts_logged (write_file p c w) = attempts_logged w"
  by (simp add: attempts_logged_def write_file_def)

lemma attempts_clean_and_convert:
  "attempts_logged (snd (clean_and_convert L html cfg w)) = attempts_logged w"
  by (simp add: clean_and_convert_def attempts_logging split: sum.splits option.splits)

lemma attempts_clean_and_convert':
  "clean_and_convert L html cfg w = (r, w') \<Longrightarrow> attempts_logged w' = attempts_logged w"
  using attempts_clean_and_convert [of L html cfg w] by simp

lemma attempts_static: "attempts_logged (fetch_and_save_static L url cfg w) = attempts_logged w"
  by (auto dest: attempts_clean_and_convert'  simp: fetch_and_save_static_def attempts_logging attempts_write_file Let_def
      split: sum.splits prod.splits)

lemma attempts_dynamic: "attempts_logged (fetch_and_save_dynamic L url cfg w) = attempts_logged w"
  by (auto dest: attempts_clean_and_convert'  simp: fetch_and_save_dynamic_def attempts_logging attempts_write_file Let_def
      split: sum.splits prod.splits)

lemma attempts_foldl:
  assumes "\<And>v url. attempts_logged (f v url) = attempts_logged v"
  shows "attempts_logged (foldl f w urls) = attempts_logged w"
  by (induction urls arbitrary: w) (simp_all add: assms)

lemma attempts_execute_scrape:
  "attempts_logged (snd (execute_scrape L html cfg w)) = attempts_logged w"
  by (simp add: execute_scrape_def attempts_logging attempts_foldl attempts_static
      attempts_dynamic split: sum.splits)

lemma attempts_refine:
  "attempts_logged (snd (refine_and_correct_plan L cfg info w)) = attempts_logged w"
  by (simp add: refine_and_correct_plan_def Let_def attempts_logging
      split: ai_reply.splits option.splits)

lemma execute_scrape_fault:
  "get_all_doc_urls_from_html L html cfg = Inl e \<Longrightarrow> execute_scrape L html cfg w = (Inl e, w)"
  by (simp add: execute_scrape_def)

lemma attempt_loop_last:
  "attempt_loop L auto html (Suc 0) cfg w =
     (case execute_scrape L html cfg (logging INFO (AttemptStarted 2 cfg) w) of
        (Inr u, w1) \<Rightarrow> (Succeeded, logging INFO ScrapeSucceeded (save_project_metadata cfg w1))
      | (Inl (SelectorNotFoundError sel snippet), w1) \<Rightarrow> (Failed, logging ERROR GivingUp w1)
      | (Inl (OtherException m), w1) \<Rightarrow> (Raised (OtherException m), w1))"
  by (subst attempt_loop.simps)
     (auto simp: MAX_ATTEMPTS_def numeral_2_eq_2 split: prod.splits sum.splits exn.splits)

lemma attempt_loop_manual:
  "attempt_loop L False html 0 cfg w =
     (case execute_scrape L html cfg (logging INFO (AttemptStarted 1 cfg) w) of
        (Inr u, w1) \<Rightarrow> (Succeeded, logging INFO ScrapeSucceeded (save_project_metadata cfg w1))
      | (Inl (SelectorNotFoundError sel snippet), w1) \<Rightarrow> (Failed, logging ERROR GivingUp w1)
      | (Inl (OtherException m), w1) \<Rightarrow> (Raised (OtherException m), w1))"
  by (subst attempt_loop.simps)
     (auto simp: MAX_ATTEMPTS_def numeral_2_eq_2 split: prod.splits sum.splits exn.splits)

lemma attempt_loop_auto_fault:
  assumes "get_all_doc_urls_from_html L html cfg = Inl (SelectorNotFoundError sel snippet)"
  shows "attempt_loop L True html 0 cfg w =
     (case refine_and_correct_plan L cfg (sel, snippet)
             (logging INFO RepairRequested
                (logging ERROR (ExecutionFailed (SelectorNotFoundError sel snippet))
                   (logging INFO (AttemptStarted 1 cfg) w))) of
        ((Some corrected_config, c), w2) \<Rightarrow> attempt_loop L True html (Suc 0) corrected_config w2
      | ((None, c), w2) \<Rightarrow> (Failed, logging ERROR NoCorrectedPlan w2))"
  by (subst attempt_loop.simps)
     (auto simp: MAX_ATTEMPTS_def execute_scrape_fault [OF assms] split: prod.splits option.splits)

lemma attempts_loop_last:
  "attempts_logged (snd (attempt_loop L auto html (Suc 0) cfg w)) = attempts_logged w + 1"
proof -
  obtain r w1 where e: "execute_scrape L html cfg (logging INFO (AttemptStarted 2 cfg) w) = (r, w1)"
    by (cases "execute_scrape L html cfg (logging INFO (AttemptStarted 2 cfg) w)")
  have "attempts_logged w1 = attempts_logged w + 1"
    using attempts_execute_scrape [of L html cfg "logging INFO (AttemptStarted 2 cfg) w"] e
    by (simp add: attempts_logging)
  with e show ?thesis
    by (simp add: attempt_loop_last attempts_logging save_project_metadata_def attempts_write_file
        split: sum.splits exn.splits)
qed

lemma attempts_loop_first:
  "attempts_logged (snd (attempt_loop L auto html 0 cfg w)) \<le> attempts_logged w + MAX_ATTEMPTS"
proof -
  let ?w0 = "logging INFO (AttemptStarted 1 cfg) w"
  obtain r w1 where e: "execute_scrape L html cfg ?w0 = (r, w1)"
    by (cases "execute_scrape L html cfg ?w0")
  have w1: "attempts_logged w1 = attempts_logged w + 1"
    using attempts_execute_scrape [of L html cfg ?w0] e by (simp add: attempts_logging)
  show ?thesis
  proof (cases r)
    case (Inr u)
    with e w1 show ?thesis
      by (subst attempt_loop.simps)
         (simp add: MAX_ATTEMPTS_def attempts_logging save_project_metadata_def attempts_write_file)
  next
    case (Inl x)
    show ?thesis
    proof (cases x)
      case (OtherException m)
      with Inl e w1 show ?thesis
        by (subst attempt_loop.simps) (simp add: MAX_ATTEMPTS_def)
    next
      case (SelectorNotFoundError sel snippet)
      let ?w2 = "logging INFO RepairRequested
                   (logging ERROR (ExecutionFailed (SelectorNotFoundError sel snippet)) w1)"
      obtain res obj w3 where rf: "refine_and_correct_plan L cfg (sel, snippet) ?w2 = ((res, obj), w3)"
        by (cases "refine_and_correct_plan L cfg (sel, snippet) ?w2") auto
      have w3: "attempts_logged w3 = attempts_logged w + 1"
        using attempts_refine [of L cfg "(sel, snippet)" ?w2] rf w1 by (simp add: attempts_logging)
      show ?thesis
      proof (cases "auto")
        case False
        with SelectorNotFoundError Inl e w1 show ?thesis
          by (subst attempt_loop.simps) (simp add: MAX_ATTEMPTS_def attempts_logging)
      next
        case True
        show ?thesis
        proof (cases res)
          case None
          with True SelectorNotFoundError Inl e rf w3 show ?thesis
            by (subst attempt_loop.simps) (simp add: MAX_ATTEMPTS_def attempts_logging)
        next
          case (Some c')
          with True SelectorNotFoundError Inl e rf w3
            attempts_loop_last [of L True html c' w3]
          show ?thesis
            by (subst attempt_loop.simps) (simp add: MAX_ATTEMPTS_def)
        qed
      qed
    qed
  qed
qed

lemma attempts_get_html:
  "get_html_with_playwright L u w = (r, w') \<Longrightarrow> attempts_logged w' = attempts_logged w"
  by (auto simp: get_html_with_playwright_def attempts_logging split: sum.splits)

lemma attempts_plan:
  "plan_from_html L n u h w = (r, w') \<Longrightarrow> attempts_logged w' = attempts_logged w"
  by (auto simp: plan_from_html_def attempts_logging Let_def split: ai_reply.splits option.splits)

lemma attempts_main:
  "attempts_logged (snd (main L tbl args w)) \<le> attempts_logged w + MAX_ATTEMPTS"
proof (cases args)
  case (Manual name)
  show ?thesis
  proof (cases "tbl name")
    case None
    with Manual show ?thesis by (simp add: main_def)
  next
    case (Some cfg)
    obtain r w1 where g: "get_html_with_playwright L (start_url cfg) w = (r, w1)"
      by (cases "get_html_with_playwright L (start_url cfg) w")
    from attempts_get_html [OF g] attempts_loop_first [of L False _ cfg w1] Manual Some g
    show ?thesis by (simp add: main_def split: option.splits)
  qed
next
  case (Auto url name)
  obtain r w1 where g: "get_html_with_playwright L url w = (r, w1)"
    by (cases "get_html_with_playwright L url w")
  show ?thesis
  proof (cases r)
    case None
    with Auto g attempts_get_html [OF g] show ?thesis by (simp add: main_def)
  next
    case (Some html)
    obtain c w2 where p: "plan_from_html L name url html w1 = (c, w2)"
      by (cases "plan_from_html L name url html w1")
    from attempts_get_html [OF g] attempts_plan [OF p] attempts_loop_first [of L True html _ w2]
      Auto Some g p
    show ?thesis by (simp add: main_def split: option.splits)
  qed
qed

lemma repairs_logging:
  "repairs_logged (logging lv ev w) = repairs_logged w + (if is_repair (lv, ev) then 1 else 0)"
  by (simp add: repairs_logged_def logging_def)

text \<open>
  Claim C4. A run in manual mode whose plan raises \<open>SelectorNotFoundError\<close> ends as
  failed after one execution attempt: the log gains the record of the first attempt and
  the record of giving up and nothing else, so no repair is requested and the
  correction is never called; no file is written.
\<close>

theorem manual_mismatch_fails_without_repair:
  assumes "tbl name = Some cfg"
    and "playwright_render L (start_url cfg) = Inr html" and "html \<noteq> []"
    and "get_all_doc_urls_from_html L html cfg = Inl (SelectorNotFoundError sel snippet)"
  shows "\<exists>w'. main L tbl (Manual name) w = (Failed, w') \<and> files w' = files w \<and>
           logs w' = logs w @ [(INFO, AttemptStarted 1 cfg), (ERROR, GivingUp)] \<and>
           attempts_logged w' = attempts_logged w + 1 \<and>
           repairs_logged w' = repairs_logged w"
proof -
  let ?w' = "logging ERROR GivingUp (logging INFO (AttemptStarted 1 cfg) w)"
  have "get_html_with_playwright L (start_url cfg) w = (Some html, w)"
    using assms(2) by (simp add: get_html_with_playwright_def)
  then have "main L tbl (Manual name) w = attempt_loop L False html 0 cfg w"
    using assms(1,3) by (simp add: main_def)
  also have "\<dots> = (Failed, ?w')"
    by (simp add: attempt_loop_manual execute_scrape_fault [OF assms(4)])
  finally have m: "main L tbl (Manual name) w = (Failed, ?w')" .
  have f: "files ?w' = files w" by (simp add: logging_def)
  have l: "logs ?w' = logs w @ [(INFO, AttemptStarted 1 cfg), (ERROR, GivingUp)]"
    by (simp add: logging_def)
  have a: "attempts_logged ?w' = attempts_logged w + 1" by (simp add: attempts_logging)
  have r: "repairs_logged ?w' = repairs_logged w" by (simp add: repairs_logging)
  from m f l a r show ?thesis by blast
qed

lemma aside_plan_start: "playwright_render sample (start_url aside_plan) = Inr entry_html"
  by (simp add: sample_def sample_render_def aside_plan_def Config_def)

lemma entry_html_nonempty: "entry_html \<noteq> []"
  by (simp add: entry_html_def)

lemma aside_plan_fault:
  "get_all_doc_urls_from_html sample entry_html aside_plan =
     Inl (SelectorNotFoundError ''aside'' entry_html)"
  by code_simp

theorem manual_mismatch_fails_without_repair_witness:
  "[''X'' \<mapsto> aside_plan] ''X'' = Some aside_plan \<and>
   playwright_render sample (start_url aside_plan) = Inr entry_html \<and> entry_html \<noteq> [] \<and>
   get_all_doc_urls_from_html sample entry_html aside_plan =
     Inl (SelectorNotFoundError ''aside'' entry_html) \<and>
   (\<exists>w'. main sample [''X'' \<mapsto> aside_plan] (Manual ''X'') fresh = (Failed, w') \<and>
      files w' = files fresh \<and>
      logs w' = logs fresh @ [(INFO, AttemptStarted 1 aside_plan), (ERROR, GivingUp)] \<and>
      attempts_logged w' = attempts_logged fresh + 1 \<and>
      repairs_logged w' = repairs_logged fresh)"
proof -
  have t: "[''X'' \<mapsto> aside_plan] ''X'' = Some aside_plan" by simp
  from manual_mismatch_fails_without_repair
         [where tbl = "[''X'' \<mapsto> aside_plan]" and name = "''X''" and w = fresh,
          OF t aside_plan_start entry_html_nonempty aside_plan_fault]
    t aside_plan_start entry_html_nonempty aside_plan_fault
  show ?thesis by blast
qed

lemma refine_result_any_world:
  "fst (refine_and_correct_plan L cfg info w) = fst (refine_and_correct_plan L cfg info v)"
  by (simp add: refine_and_correct_plan_def Let_def split: ai_reply.splits option.splits)

lemma refine_some:
  assumes "fst (refine_and_correct_plan L cfg info v) = (Some cfg', obj)"
  shows "\<exists>fs ns cs er. generate_correction L cfg (fst info) (snd info) =
             Json (PlanJson fs (Some ns) (Some cs) (Some er)) \<and>
           cfg' = cfg\<lparr>nav_selector := ns, content_selector := cs, elements_to_remove := er\<rparr> \<and>
           obj = cfg'"
proof (cases "generate_correction L cfg (fst info) (snd info)")
  case (Json d)
  obtain fs ns cs er where d: "d = PlanJson fs ns cs er" by (cases d)
  from assms Json d show ?thesis
    by (cases ns; cases cs; cases er) (auto simp: refine_and_correct_plan_def Let_def)
qed (use assms in \<open>simp_all add: refine_and_correct_plan_def Let_def\<close>)

text \<open>
  Claim C5. When the first attempt of a run in automatic mode raises
  \<open>SelectorNotFoundError\<close> and the correction returns a plan, that plan has the navigation
  selector, the content selector and the list of elements to remove of the reply, and
  the fetch strategy, project name, start URL, base URL and output directory of the
  failed plan; the loop goes on with it as its second attempt, which is the last one:
  its outcome is the outcome of the run. No run logs more than \<open>MAX_ATTEMPTS\<close> attempts,
  and \<open>MAX_ATTEMPTS\<close> is two.
\<close>

theorem repair_replaces_locators_only:
  assumes "get_all_doc_urls_from_html L html cfg = Inl (SelectorNotFoundError sel snippet)"
    and "fst (refine_and_correct_plan L cfg (sel, snippet) v) = (Some cfg', obj)"
  shows "(\<exists>fs. generate_correction L cfg sel snippet =
            Json (PlanJson fs (Some (nav_selector cfg')) (Some (content_selector cfg'))
                    (Some (elements_to_remove cfg')))) \<and>
         fetch_strategy cfg' = fetch_strategy cfg \<and> project_name cfg' = project_name cfg \<and>
         start_url cfg' = start_url cfg \<and> base_url cfg' = base_url cfg \<and>
         output_dir cfg' = output_dir cfg \<and>
         (\<exists>w'. attempt_loop L True html 0 cfg w = attempt_loop L True html 1 cfg' w' \<and>
            attempt_loop L True html 1 cfg' w' =
              (case execute_scrape L html cfg' (logging INFO (AttemptStarted 2 cfg') w') of
                 (Inr u, w1) \<Rightarrow>
                   (Succeeded, logging INFO ScrapeSucceeded (save_project_metadata cfg' w1))
               | (Inl (SelectorNotFoundError s n), w1) \<Rightarrow> (Failed, logging ERROR GivingUp w1)
               | (Inl (OtherException m), w1) \<Rightarrow> (Raised (OtherException m), w1))) \<and>
         attempts_logged (snd (main L tbl args v)) \<le> attempts_logged v + MAX_ATTEMPTS \<and>
         MAX_ATTEMPTS = 2"
proof -
  let ?w0 = "logging INFO RepairRequested
               (logging ERROR (ExecutionFailed (SelectorNotFoundError sel snippet))
                  (logging INFO (AttemptStarted 1 cfg) w))"
  from refine_some [OF assms(2)] obtain fs ns cs er where
    g: "generate_correction L cfg sel snippet = Json (PlanJson fs (Some ns) (Some cs) (Some er))"
    and c: "cfg' = cfg\<lparr>nav_selector := ns, content_selector := cs, elements_to_remove := er\<rparr>"
    and o: "obj = cfg'"
    by auto
  from g c have 1: "\<exists>fs. generate_correction L cfg sel snippet =
      Json (PlanJson fs (Some (nav_selector cfg')) (Some (content_selector cfg'))
              (Some (elements_to_remove cfg')))"
    by simp
  from c have 2: "fetch_strategy cfg' = fetch_strategy cfg \<and> project_name cfg' = project_name cfg \<and>
      start_url cfg' = start_url cfg \<and> base_url cfg' = base_url cfg \<and>
      output_dir cfg' = output_dir cfg"
    by simp
  obtain w' where r: "refine_and_correct_plan L cfg (sel, snippet) ?w0 = ((Some cfg', obj), w')"
    using assms(2) refine_result_any_world [of L cfg "(sel, snippet)" ?w0 v]
    by (cases "refine_and_correct_plan L cfg (sel, snippet) ?w0") simp
  have 3: "attempt_loop L True html 0 cfg w = attempt_loop L True html 1 cfg' w'"
    using r by (simp add: attempt_loop_auto_fault [OF assms(1)])
  have 4: "attempt_loop L True html 1 cfg' w' =
      (case execute_scrape L html cfg' (logging INFO (AttemptStarted 2 cfg') w') of
         (Inr u, w1) \<Rightarrow>
           (Succeeded, logging INFO ScrapeSucceeded (save_project_metadata cfg' w1))
       | (Inl (SelectorNotFoundError s n), w1) \<Rightarrow> (Failed, logging ERROR GivingUp w1)
       | (Inl (OtherException m), w1) \<Rightarrow> (Raised (OtherException m), w1))"
    using attempt_loop_last [of L True html cfg' w'] by simp
  have 5: "attempts_logged (snd (main L tbl args v)) \<le> attempts_logged v + MAX_ATTEMPTS"
    by (rule attempts_main)
  have 6: "MAX_ATTEMPTS = 2" by (rule MAX_ATTEMPTS_def)
  from 1 2 3 4 5 6 show ?thesis by blast
qed

lemma aside_plan_corrected:
  "fst (refine_and_correct_plan sample aside_plan (''aside'', entry_html) fresh) =
     (Some nav_plan, nav_plan)"
  by (simp add: refine_and_correct_plan_def sample_def sample_correction_def nav_plan_def Let_def)

theorem repair_replaces_locators_only_witness:
  "get_all_doc_urls_from_html sample entry_html aside_plan =
     Inl (SelectorNotFoundError ''aside'' entry_html) \<and>
   fst (refine_and_correct_plan sample aside_plan (''aside'', entry_html) fresh) =
     (Some nav_plan, nav_plan) \<and>
   (\<exists>fs. generate_correction sample aside_plan ''aside'' entry_html =
      Json (PlanJson fs (Some (nav_selector nav_plan)) (Some (content_selector nav_plan))
              (Some (elements_to_remove nav_plan)))) \<and>
   fetch_strategy nav_plan = fetch_strategy aside_plan \<and>
   project_name nav_plan = project_name aside_plan \<and>
   start_url nav_plan = start_url aside_plan \<and> base_url nav_plan = base_url aside_plan \<and>
   output_dir nav_plan = output_dir aside_plan \<and>
   (\<exists>w'. attempt_loop sample True entry_html 0 aside_plan fresh =
      attempt_loop sample True entry_html 1 nav_plan w') \<and>
   attempts_logged (snd (main sample Map.empty (Auto ''https://x/'' ''x'') fresh)) \<le>
     attempts_logged fresh + MAX_ATTEMPTS"
  using repair_replaces_locators_only
          [where w = fresh and tbl = Map.empty and args = "Auto ''https://x/'' ''x''",
           OF aside_plan_fault aside_plan_corrected]
    aside_plan_fault aside_plan_corrected
  by blast

section \<open>A crawl that discovers no URL\<close>

lemma execute_scrape_no_urls:
  "get_all_doc_urls_from_html L html cfg = Inr [] \<Longrightarrow>
   execute_scrape L html cfg w = (Inr (), logging ERROR NoUrlsFound w)"
  by (simp add: execute_scrape_def)

lemma attempt_loop_first_ok:
  assumes "execute_scrape L html cfg (logging INFO (AttemptStarted 1 cfg) w) = (Inr u, w1)"
  shows "attempt_loop L auto html 0 cfg w =
           (Succeeded, logging INFO ScrapeSucceeded (save_project_metadata cfg w1))"
  using assms by (subst attempt_loop.simps) (simp add: MAX_ATTEMPTS_def)

text \<open>
  Claim C1 says that a run whose link discovery returns no URL fails with a run-level
  fault and neither saves the metadata nor reports success. The program does otherwise:
  when the navigation selector matches and discovery returns the empty list,
  \<open>execute_scrape\<close> logs an error and returns normally, and the first attempt of the loop,
  in either mode, saves the project metadata and reports success.
\<close>

theorem zero_discovery_ends_in_success:
  assumes "get_all_doc_urls_from_html L html cfg = Inr []"
  shows "execute_scrape L html cfg w = (Inr (), logging ERROR NoUrlsFound w) \<and>
         attempt_loop L auto html 0 cfg w =
           (Succeeded,
            logging INFO ScrapeSucceeded
              (save_project_metadata cfg
                 (logging ERROR NoUrlsFound (logging INFO (AttemptStarted 1 cfg) w)))) \<and>
         files (snd (attempt_loop L auto html 0 cfg w))
             (path_join (output_dir cfg) ''.project_meta.json'') =
           Some (ProjectMeta (project_name cfg) (start_url cfg))"
proof -
  have e: "execute_scrape L html cfg v = (Inr (), logging ERROR NoUrlsFound v)" for v
    by (rule execute_scrape_no_urls [OF assms])
  have l: "attempt_loop L auto html 0 cfg w =
      (Succeeded,
       logging INFO ScrapeSucceeded
         (save_project_metadata cfg
            (logging ERROR NoUrlsFound (logging INFO (AttemptStarted 1 cfg) w))))"
    by (rule attempt_loop_first_ok [OF e])
  have "files (snd (attempt_loop L auto html 0 cfg w))
      (path_join (output_dir cfg) ''.project_meta.json'') =
      Some (ProjectMeta (project_name cfg) (start_url cfg))"
    unfolding l by (simp add: logging_def save_project_metadata_def write_file_def)
  with e l show ?thesis by blast
qed

text \<open>
  The run on the site \<^verbatim>\<open>https://y/\<close>, whose navigation bar has no link into the site, in
  manual mode.
\<close>

lemma y_plan_no_urls: "get_all_doc_urls_from_html sample offsite_html y_plan = Inr []"
  by code_simp

lemma y_plan_rendered:
  "get_html_with_playwright sample (start_url y_plan) fresh = (Some offsite_html, fresh)"
  by (simp add: get_html_with_playwright_def sample_def sample_render_def y_plan_def Config_def)

lemma offsite_html_nonempty: "offsite_html \<noteq> []"
  by (simp add: offsite_html_def)

lemma y_plan_meta_path:
  "path_join (output_dir y_plan) ''.project_meta.json'' = ''scraped_docs_y/.project_meta.json''"
  by code_simp

theorem zero_discovery_ends_in_success_witness:
  "get_all_doc_urls_from_html sample offsite_html y_plan = Inr [] \<and>
   main sample [''Y'' \<mapsto> y_plan] (Manual ''Y'') fresh =
     (Succeeded,
      logging INFO ScrapeSucceeded
        (save_project_metadata y_plan
           (logging ERROR NoUrlsFound (logging INFO (AttemptStarted 1 y_plan) fresh)))) \<and>
   files (snd (main sample [''Y'' \<mapsto> y_plan] (Manual ''Y'') fresh))
       ''scraped_docs_y/.project_meta.json'' =
     Some (ProjectMeta (project_name y_plan) (start_url y_plan))"
proof -
  have m: "main sample [''Y'' \<mapsto> y_plan] (Manual ''Y'') fresh =
      attempt_loop sample False offsite_html 0 y_plan fresh"
    using y_plan_rendered offsite_html_nonempty by (simp add: main_def)
  note z = zero_discovery_ends_in_success [OF y_plan_no_urls, of fresh False]
  from z have a: "attempt_loop sample False offsite_html 0 y_plan fresh =
      (Succeeded,
       logging INFO ScrapeSucceeded
         (save_project_metadata y_plan
            (logging ERROR NoUrlsFound (logging INFO (AttemptStarted 1 y_plan) fresh))))"
    by (rule conjunct1 [OF conjunct2])
  from z have b: "files (snd (attempt_loop sample False offsite_html 0 y_plan fresh))
      (path_join (output_dir y_plan) ''.project_meta.json'') =
      Some (ProjectMeta (project_name y_plan) (start_url y_plan))"
    by (rule conjunct2 [OF conjunct2])
  from a b [unfolded y_plan_meta_path] y_plan_no_urls show ?thesis
    unfolding m by (intro conjI)
qed

section \<open>The static batch\<close>

lemma clean_and_convert_region:
  assumes "select L (content_selector cfg) (BeautifulSoup L html) = Inr (region # others)"
    and "remove_elements L (elements_to_remove cfg) region = Inr cleaned"
  shows "clean_and_convert L html cfg w = (Inr (md_str L cleaned), w)"
  using select_one_first [OF assms(1)] assms(2) by (simp add: clean_and_convert_def)

text \<open>
  Claim C7 says that under the static strategy an empty extraction result is skipped with
  a warning. The static task does skip it, but silently: when the content region is found
  and its conversion is empty, the task returns with files and log as they were. The
  dynamic visit of the same page logs the warning.
\<close>

theorem static_empty_extraction_is_silent:
  assumes "session_get L url = Inr (status, html)" and "status < 400"
    and "page_goto_content L url = Inr html"
    and "select L (content_selector cfg) (BeautifulSoup L html) = Inr (region # others)"
    and "remove_elements L (elements_to_remove cfg) region = Inr cleaned"
    and "md_str L cleaned = []"
  shows "fetch_and_save_static L url cfg w = w \<and>
         fetch_and_save_dynamic L url cfg w = logging WARNING (EmptyContentSkipped url) w"
  using assms(1,2,3,6) clean_and_convert_region [OF assms(4,5), of w]
  by (simp add: fetch_and_save_static_def fetch_and_save_dynamic_def)

lemma blank_served: "sample_get ''https://x/blank.html'' = Inr (200, blank_html)"
  by code_simp

lemma blank_fetched: "session_get sample ''https://x/blank.html'' = Inr (200, blank_html)"
  using blank_served by (simp add: sample_def)

lemma blank_visited: "page_goto_content sample ''https://x/blank.html'' = Inr blank_html"
  using blank_served by (simp add: sample_def)

lemma blank_has_main:
  "select sample (content_selector x_plan) (BeautifulSoup sample blank_html) =
     Inr (Tag 1 ''main'' [] [] # [])"
  by code_simp

lemma blank_cleaned:
  "remove_elements sample (elements_to_remove x_plan) (Tag 1 ''main'' [] []) =
     Inr (Tag 1 ''main'' [] [])"
  by code_simp

lemma blank_converted: "md_str sample (Tag 1 ''main'' [] []) = []"
  by code_simp

theorem static_empty_extraction_is_silent_witness:
  "session_get sample ''https://x/blank.html'' = Inr (200, blank_html) \<and> (200::nat) < 400 \<and>
   fetch_and_save_static sample ''https://x/blank.html'' x_plan fresh = fresh \<and>
   logs (fetch_and_save_static sample ''https://x/blank.html'' x_plan fresh) = [] \<and>
   fetch_and_save_dynamic sample ''https://x/blank.html'' x_plan fresh =
     logging WARNING (EmptyContentSkipped ''https://x/blank.html'') fresh"
proof -
  have lt: "(200::nat) < 400" by simp
  note s = static_empty_extraction_is_silent
             [OF blank_fetched lt blank_visited blank_has_main blank_cleaned blank_converted,
              of fresh]
  from s have "logs (fetch_and_save_static sample ''https://x/blank.html'' x_plan fresh) = []"
    by (simp add: fresh_def)
  with s blank_fetched lt show ?thesis by blast
qed

text \<open>
  The rest of the claim on the sample site: of the three discovered URLs the second is
  answered with status 404; the batch writes the artifacts of the other two and logs
  one warning.
\<close>

lemma static_three_urls_discovered:
  "get_all_doc_urls_from_html sample entry_html x_plan =
     Inr [''https://x/a.html'', ''https://x/b.html'', ''https://x/c.html'']"
  by code_simp

lemma static_three_urls_log:
  "logs (snd (execute_scrape sample entry_html x_plan fresh)) =
     [(WARNING, StaticUrlFailed ''https://x/b.html'' (OtherException ''ClientResponseError''))]"
  by code_simp

lemma static_three_urls_files:
  "map (files (snd (execute_scrape sample entry_html x_plan fresh)))
     [''scraped_docs_x/a.md'', ''scraped_docs_x/b.md'', ''scraped_docs_x/c.md''] =
     [Some (Markdown ''Tab''), None, Some (Markdown ''Tab'')]"
  by code_simp

section \<open>File names and overwriting\<close>

lemma index_is_safe: "list_all safe_char ''index''"
  by code_simp

lemma slash_is_unsafe: "\<not> safe_char CHR ''/''"
  by code_simp

lemma safe_filename_shape:
  "\<exists>safe. generate_safe_filename L url cfg = safe @ ''.md'' \<and> safe \<noteq> [] \<and>
     list_all safe_char safe"
proof -
  let ?s = "re_sub_unsafe (strip CHR ''_'' (replace_all ''.html'' [] (replace_all ''/'' ''_''
              (replace_first (urlparse_path L (base_url cfg)) [] (urlparse_path L url)))))"
  have g: "generate_safe_filename L url cfg = (if ?s = [] then ''index'' else ?s) @ ''.md''"
    by (simp add: generate_safe_filename_def Let_def)
  have "list_all safe_char ?s" by (simp add: re_sub_unsafe_def list_all_iff)
  with index_is_safe have "list_all safe_char (if ?s = [] then ''index'' else ?s)" by simp
  moreover have "(if ?s = [] then ''index'' else ?s) \<noteq> []" by simp
  ultimately show ?thesis using g by blast
qed

lemma safe_filename_relative: "\<not> startswith (generate_safe_filename L url cfg) ''/''"
proof -
  from safe_filename_shape [of L url cfg] obtain safe where
    g: "generate_safe_filename L url cfg = safe @ ''.md''" and n: "safe \<noteq> []"
    and a: "list_all safe_char safe"
    by blast
  from n obtain c cs where s: "safe = c # cs" by (cases safe) auto
  with a have "safe_char c" by simp
  with slash_is_unsafe have "c \<noteq> CHR ''/''" by auto
  with g s show ?thesis by (simp add: startswith_def)
qed

lemma path_join_relative:
  "\<not> startswith b ''/'' \<Longrightarrow>
   path_join a b = (if a = [] \<or> endswith a ''/'' then a else a @ ''/'') @ b"
  by (simp add: path_join_def)

lemma artifact_paths_differ:
  assumes "generate_safe_filename L u1 cfg \<noteq> generate_safe_filename L u2 cfg"
  shows "path_join d (generate_safe_filename L u1 cfg) \<noteq>
         path_join d (generate_safe_filename L u2 cfg)"
  using assms
  by (simp only: path_join_relative [OF safe_filename_relative] same_append_eq simp_thms)

lemma files_logging: "files (logging lv ev w) = files w"
  by (simp add: logging_def)

lemma files_clean_and_convert:
  "clean_and_convert L html cfg w = (r, w') \<Longrightarrow> files w' = files w"
  by (auto simp: clean_and_convert_def files_logging split: sum.splits option.splits)

lemma files_static_elsewhere:
  assumes "p \<noteq> path_join (output_dir cfg) (generate_safe_filename L url cfg)"
  shows "files (fetch_and_save_static L url cfg w) p = files w p"
  using assms
  by (auto simp: fetch_and_save_static_def files_logging write_file_def Let_def
      dest: files_clean_and_convert split: sum.splits prod.splits)

lemma files_dynamic_elsewhere:
  assumes "p \<noteq> path_join (output_dir cfg) (generate_safe_filename L url cfg)"
  shows "files (fetch_and_save_dynamic L url cfg w) p = files w p"
  using assms
  by (auto simp: fetch_and_save_dynamic_def files_logging write_file_def Let_def
      dest: files_clean_and_convert split: sum.splits prod.splits)

lemma replace_first_prefix: "replace_first old [] (old @ r) = r"
proof (cases "old @ r")
  case Nil
  then show ?thesis by simp
next
  case (Cons x xs)
  have "prefix old (x # xs)" unfolding Cons [symmetric] by simp
  then have "replace_first old [] (x # xs) = drop (length old) (x # xs)" by simp
  then show ?thesis unfolding Cons [symmetric] by simp
qed

lemma replace_all_Nil: "old \<noteq> [] \<Longrightarrow> replace_all old new [] = []"
  by (subst replace_all.simps) simp

lemma replace_all_char:
  "replace_all [c] [d] s = map (\<lambda>x. if x = c then d else x) s"
proof (induction s)
  case Nil
  show ?case by (simp add: replace_all_Nil)
next
  case (Cons x xs)
  then show ?case by (subst replace_all.simps) auto
qed

lemma replace_all_suffix:
  "c \<notin> set s \<Longrightarrow> replace_all (c # r) [] (s @ c # r) = s"
proof (induction s)
  case Nil
  show ?case by (subst replace_all.simps) (simp add: replace_all_Nil)
next
  case (Cons x xs)
  then show ?case by (subst replace_all.simps) auto
qed

lemma strip_unchanged:
  assumes "s \<noteq> []" and "hd s \<noteq> c" and "last s \<noteq> c"
  shows "strip c s = s"
proof -
  from assms(1,2) have 1: "dropWhile (\<lambda>x. x = c) s = s" by (cases s) auto
  from assms(1,3) have 2: "dropWhile (\<lambda>x. x = c) (rev s) = rev s"
    by (cases "rev s") (auto simp: last_rev [symmetric])
  show ?thesis by (simp add: strip_def 1 2)
qed

lemma dot_is_unsafe: "\<not> safe_char CHR ''.''"
  by code_simp

lemma underscore_is_safe: "safe_char CHR ''_''"
  by code_simp

lemma suffix_keeps_slashes: "map slash_to_underscore ''.html'' = ''.html''"
  by code_simp

lemma slash_to_underscore_safe: "stem_char c \<Longrightarrow> safe_char (slash_to_underscore c)"
  using underscore_is_safe by (auto simp: stem_char_def slash_to_underscore_def)

lemma slash_to_underscore_plain:
  "stem_char c \<Longrightarrow> c \<noteq> CHR ''/'' \<Longrightarrow> slash_to_underscore c \<noteq> CHR ''_''"
  using slash_is_unsafe by (auto simp: stem_char_def slash_to_underscore_def)

lemma slash_to_underscore_inj: "inj_on slash_to_underscore {c. stem_char c}"
  using slash_is_unsafe by (auto simp: inj_on_def stem_char_def slash_to_underscore_def)

lemma plain_stem_name:
  assumes "plain_stem s"
  shows "re_sub_unsafe (strip CHR ''_'' (replace_all ''.html'' []
           (replace_all ''/'' ''_'' (s @ ''.html'')))) = map slash_to_underscore s"
proof -
  let ?m = "map slash_to_underscore s"
  from assms have ne: "s \<noteq> []" and ch: "list_all stem_char s"
    and h: "hd s \<noteq> CHR ''/''" and l: "last s \<noteq> CHR ''/''"
    by (simp_all add: plain_stem_def)
  have f: "(\<lambda>x. if x = CHR ''/'' then CHR ''_'' else x) = slash_to_underscore"
    by (rule ext) (simp add: slash_to_underscore_def)
  have "replace_all ''/'' ''_'' (s @ ''.html'') = map slash_to_underscore (s @ ''.html'')"
    using replace_all_char [of "CHR ''/''" "CHR ''_''" "s @ ''.html''"] by (simp only: f)
  then have 1: "replace_all ''/'' ''_'' (s @ ''.html'') = ?m @ ''.html''"
    by (simp only: map_append suffix_keeps_slashes)
  have safe: "list_all safe_char ?m"
    using ch slash_to_underscore_safe by (simp add: list_all_iff)
  with dot_is_unsafe have "CHR ''.'' \<notin> set ?m" by (auto simp: list_all_iff)
  then have 2: "replace_all ''.html'' [] (?m @ ''.html'') = ?m"
    using replace_all_suffix [of "CHR ''.''" ?m "''html''"] by simp
  from ne ch h have "stem_char (hd s)" by (cases s) simp_all
  with h have hm: "hd ?m \<noteq> CHR ''_''"
    using ne slash_to_underscore_plain by (simp add: hd_map)
  from ne ch have "stem_char (last s)" by (simp add: list_all_iff)
  with l have lm: "last ?m \<noteq> CHR ''_''"
    using ne slash_to_underscore_plain by (simp add: last_map)
  from ne hm lm have 3: "strip CHR ''_'' ?m = ?m" by (intro strip_unchanged) simp_all
  from safe have 4: "re_sub_unsafe ?m = ?m" by (simp add: re_sub_unsafe_def list_all_iff)
  show ?thesis by (simp only: 1 2 3 4)
qed

lemma plain_page_filename:
  assumes "urlparse_path L u = urlparse_path L (base_url cfg) @ s @ ''.html''"
    and "plain_stem s"
  shows "generate_safe_filename L u cfg = map slash_to_underscore s @ ''.md''"
proof -
  from assms(2) have "map slash_to_underscore s \<noteq> []" by (simp add: plain_stem_def)
  then show ?thesis
    by (simp add: generate_safe_filename_def Let_def assms(1) replace_first_prefix
        plain_stem_name [OF assms(2)])
qed

lemma base_page_filename:
  assumes "urlparse_path L u = urlparse_path L (base_url cfg)"
  shows "generate_safe_filename L u cfg = ''index.md''"
proof -
  have "replace_first (urlparse_path L (base_url cfg)) [] (urlparse_path L u) = []"
    using replace_first_prefix [of "urlparse_path L (base_url cfg)" "[]"] assms by simp
  then show ?thesis
    by (simp add: generate_safe_filename_def Let_def replace_all_Nil strip_def re_sub_unsafe_def)
qed

lemma plain_stems_apart:
  assumes "plain_stem s1" and "plain_stem s2" and "s1 \<noteq> s2"
  shows "map slash_to_underscore s1 @ ''.md'' \<noteq> map slash_to_underscore s2 @ ''.md''"
proof
  assume "map slash_to_underscore s1 @ ''.md'' = map slash_to_underscore s2 @ ''.md''"
  then have e: "map slash_to_underscore s1 = map slash_to_underscore s2" by simp
  from assms(1,2) have "set s1 \<union> set s2 \<subseteq> {c. stem_char c}"
    by (auto simp: plain_stem_def list_all_iff)
  with slash_to_underscore_inj have "inj_on slash_to_underscore (set s1 \<union> set s2)"
    by (rule inj_on_subset)
  with e have "s1 = s2" by (rule map_inj_on)
  with assms(3) show False by simp
qed

text \<open>
  Claim C8, as amended. Let the paths of two URLs be the base path of the plan followed by
  two distinct plain page paths: stems of letters, digits, hyphens and slashes, with a
  slash neither first nor last, each followed by \<^verbatim>\<open>.html\<close>. Then the file name of each
  URL is its stem with every slash mapped to an underscore, followed by \<^verbatim>\<open>.md\<close>; the
  two file names are distinct, and processing one of the URLs, under either strategy,
  leaves the file of the other as it was. A URL whose path is the base path itself gets
  the default name \<^verbatim>\<open>index.md\<close>.
\<close>

theorem plain_pages_have_files_of_their_own:
  assumes "urlparse_path L u1 = urlparse_path L (base_url cfg) @ s1 @ ''.html''"
    and "urlparse_path L u2 = urlparse_path L (base_url cfg) @ s2 @ ''.html''"
    and "plain_stem s1" and "plain_stem s2" and "s1 \<noteq> s2"
  shows "generate_safe_filename L u1 cfg = map slash_to_underscore s1 @ ''.md'' \<and>
         generate_safe_filename L u2 cfg = map slash_to_underscore s2 @ ''.md'' \<and>
         generate_safe_filename L u1 cfg \<noteq> generate_safe_filename L u2 cfg \<and>
         files (fetch_and_save_static L u2 cfg w)
             (path_join (output_dir cfg) (generate_safe_filename L u1 cfg)) =
           files w (path_join (output_dir cfg) (generate_safe_filename L u1 cfg)) \<and>
         files (fetch_and_save_dynamic L u2 cfg w)
             (path_join (output_dir cfg) (generate_safe_filename L u1 cfg)) =
           files w (path_join (output_dir cfg) (generate_safe_filename L u1 cfg)) \<and>
         (\<forall>u. urlparse_path L u = urlparse_path L (base_url cfg) \<longrightarrow>
            generate_safe_filename L u cfg = ''index.md'')"
proof -
  have n1: "generate_safe_filename L u1 cfg = map slash_to_underscore s1 @ ''.md''"
    by (rule plain_page_filename [OF assms(1,3)])
  have n2: "generate_safe_filename L u2 cfg = map slash_to_underscore s2 @ ''.md''"
    by (rule plain_page_filename [OF assms(2,4)])
  have d: "generate_safe_filename L u1 cfg \<noteq> generate_safe_filename L u2 cfg"
    unfolding n1 n2 by (rule plain_stems_apart [OF assms(3,4,5)])
  note p = artifact_paths_differ [OF d, of "output_dir cfg"]
  have s: "files (fetch_and_save_static L u2 cfg w)
      (path_join (output_dir cfg) (generate_safe_filename L u1 cfg)) =
      files w (path_join (output_dir cfg) (generate_safe_filename L u1 cfg))"
    by (rule files_static_elsewhere [OF p])
  have y: "files (fetch_and_save_dynamic L u2 cfg w)
      (path_join (output_dir cfg) (generate_safe_filename L u1 cfg)) =
      files w (path_join (output_dir cfg) (generate_safe_filename L u1 cfg))"
    by (rule files_dynamic_elsewhere [OF p])
  have i: "\<forall>u. urlparse_path L u = urlparse_path L (base_url cfg) \<longrightarrow>
      generate_safe_filename L u cfg = ''index.md''"
    using base_page_filename by blast
  from n1 n2 d s y i show ?thesis by (intro conjI)
qed

lemma a_filename: "generate_safe_filename sample ''https://x/a.html'' x_plan = ''a.md''"
  by code_simp

lemma c_filename: "generate_safe_filename sample ''https://x/c.html'' x_plan = ''c.md''"
  by code_simp

lemma a_path: "path_join (output_dir x_plan) ''a.md'' = ''scraped_docs_x/a.md''"
  by code_simp

lemma intro_page_path:
  "urlparse_path sample ''https://x/guide/intro.html'' =
     urlparse_path sample (base_url x_plan) @ ''guide/intro'' @ ''.html''"
  by code_simp

lemma a_page_path:
  "urlparse_path sample ''https://x/a.html'' =
     urlparse_path sample (base_url x_plan) @ ''a'' @ ''.html''"
  by code_simp

lemma intro_stem_plain: "plain_stem ''guide/intro''"
  by code_simp

lemma a_stem_plain: "plain_stem ''a''"
  by code_simp

lemma intro_name: "map slash_to_underscore ''guide/intro'' @ ''.md'' = ''guide_intro.md''"
  by code_simp

lemma a_name: "map slash_to_underscore ''a'' @ ''.md'' = ''a.md''"
  by code_simp

lemma intro_path:
  "path_join (output_dir x_plan) ''guide_intro.md'' = ''scraped_docs_x/guide_intro.md''"
  by code_simp

lemma root_page_path: "urlparse_path sample ''https://x/'' = urlparse_path sample (base_url x_plan)"
  by code_simp

theorem plain_pages_have_files_of_their_own_witness:
  "urlparse_path sample ''https://x/guide/intro.html'' =
     urlparse_path sample (base_url x_plan) @ ''guide/intro'' @ ''.html'' \<and>
   urlparse_path sample ''https://x/a.html'' =
     urlparse_path sample (base_url x_plan) @ ''a'' @ ''.html'' \<and>
   plain_stem ''guide/intro'' \<and> plain_stem ''a'' \<and> ''guide/intro'' \<noteq> ''a'' \<and>
   generate_safe_filename sample ''https://x/guide/intro.html'' x_plan = ''guide_intro.md'' \<and>
   generate_safe_filename sample ''https://x/a.html'' x_plan = ''a.md'' \<and>
   files (fetch_and_save_static sample ''https://x/a.html'' x_plan
            (write_file ''scraped_docs_x/guide_intro.md'' (Markdown ''Tab'') fresh))
       ''scraped_docs_x/guide_intro.md'' = Some (Markdown ''Tab'') \<and>
   generate_safe_filename sample ''https://x/'' x_plan = ''index.md''"
proof -
  have ne: "''guide/intro'' \<noteq> ''a''" by simp
  note t = plain_pages_have_files_of_their_own
             [OF intro_page_path a_page_path intro_stem_plain a_stem_plain ne,
              of "write_file ''scraped_docs_x/guide_intro.md'' (Markdown ''Tab'') fresh"]
  from t have n1: "generate_safe_filename sample ''https://x/guide/intro.html'' x_plan =
      ''guide_intro.md''"
    unfolding intro_name by (rule conjunct1)
  from t have n2: "generate_safe_filename sample ''https://x/a.html'' x_plan = ''a.md''"
    unfolding a_name by (rule conjunct1 [OF conjunct2])
  from t have "files (fetch_and_save_static sample ''https://x/a.html'' x_plan
        (write_file ''scraped_docs_x/guide_intro.md'' (Markdown ''Tab'') fresh))
      (path_join (output_dir x_plan)
         (generate_safe_filename sample ''https://x/guide/intro.html'' x_plan)) =
      files (write_file ''scraped_docs_x/guide_intro.md'' (Markdown ''Tab'') fresh)
      (path_join (output_dir x_plan)
         (generate_safe_filename sample ''https://x/guide/intro.html'' x_plan))"
    by (rule conjunct1 [OF conjunct2 [OF conjunct2 [OF conjunct2]]])
  then have f: "files (fetch_and_save_static sample ''https://x/a.html'' x_plan
        (write_file ''scraped_docs_x/guide_intro.md'' (Markdown ''Tab'') fresh))
      ''scraped_docs_x/guide_intro.md'' = Some (Markdown ''Tab'')"
    unfolding n1 intro_path by (simp add: write_file_def)
  from t root_page_path have r: "generate_safe_filename sample ''https://x/'' x_plan = ''index.md''"
    by blast
  from intro_page_path a_page_path intro_stem_plain a_stem_plain ne n1 n2 f r
  show ?thesis by (intro conjI)
qed

text \<open>
  Claim C8 as stated fails: on the site \<^verbatim>\<open>https://w/\<close> the two discovered URLs are
  distinct and derive the same file name; the artifact written for the first is replaced
  by the artifact of the second.
\<close>

theorem distinct_urls_share_filename:
  "''https://w/a/b.html'' \<noteq> ''https://w/a_b.html'' \<and>
   get_all_doc_urls_from_html sample clash_html w_plan =
     Inr [''https://w/a/b.html'', ''https://w/a_b.html''] \<and>
   generate_safe_filename sample ''https://w/a/b.html'' w_plan = ''a_b.md'' \<and>
   generate_safe_filename sample ''https://w/a_b.html'' w_plan = ''a_b.md'' \<and>
   files (fetch_and_save_static sample ''https://w/a/b.html'' w_plan fresh)
       ''scraped_docs_w/a_b.md'' = Some (Markdown ''Tab'') \<and>
   files (snd (execute_scrape sample clash_html w_plan fresh)) ''scraped_docs_w/a_b.md'' =
     Some (Markdown ''n'')"
  by code_simp

section \<open>Noise removal\<close>

lemma refs_iff: "i \<in> refs es \<longleftrightarrow> (\<exists>e \<in> set es. ident e = Some i)"
  by (induction es) (auto simp: refs_def split: option.splits)

lemma refs_Nil: "refs [] = {}"
  by (simp add: refs_def)

lemma refs_Cons: "refs (e # es) = (case ident e of Some i \<Rightarrow> {i} | None \<Rightarrow> {}) \<union> refs es"
  by (simp add: refs_def split: option.splits)

lemma is_ref_referenced: "is_ref i c = referenced {i} c"
  by (cases c) (auto simp: referenced_def)

lemma detach_prune: "detach i t = prune {i} t"
  by (induction t) (simp_all add: is_ref_referenced cong: map_cong)

lemma ident_prune: "ident (prune X c) = ident c"
  by (cases c) simp_all

lemma referenced_prune: "referenced X (prune Y c) = referenced X c"
  by (simp add: referenced_def ident_prune)

lemma referenced_Un: "referenced (X \<union> Y) c \<longleftrightarrow> referenced X c \<or> referenced Y c"
  by (simp add: referenced_def split: option.splits)

lemma referenced_empty: "\<not> referenced {} c"
  by (simp add: referenced_def split: option.splits)

lemma prune_empty: "prune {} t = t"
  by (induction t) (simp_all add: referenced_empty map_idI)

lemma prune_prune: "prune X (prune Y t) = prune (Y \<union> X) t"
proof (induction t)
  case (Tag j n a cs)
  have "map (prune X) (filter (\<lambda>c. \<not> referenced X c) (map (prune Y) (filter (\<lambda>c. \<not> referenced Y c) cs)))
      = map (prune X) (map (prune Y) (filter (\<lambda>c. \<not> referenced X c) (filter (\<lambda>c. \<not> referenced Y c) cs)))"
    by (simp add: filter_map comp_def referenced_prune)
  also have "\<dots> = map (prune (Y \<union> X)) (filter (\<lambda>c. \<not> referenced (Y \<union> X) c) cs)"
    using Tag.IH by (simp add: referenced_Un conj_commute cong: map_cong)
  finally show ?case by simp
qed simp

lemma decompose_prune: "decompose e t = prune (refs [e]) t"
  by (cases "ident e") (simp_all add: decompose_def refs_Cons refs_Nil prune_empty detach_prune)

lemma decompose_all_prune:
  "foldl (\<lambda>t element. decompose element t) t es = prune (refs es) t"
proof (induction es arbitrary: t)
  case Nil
  then show ?case by (simp add: refs_Nil prune_empty)
next
  case (Cons e es)
  have "refs (e # es) = refs [e] \<union> refs es" by (simp add: refs_Cons refs_Nil)
  with Cons show ?case by (simp add: decompose_prune prune_prune)
qed

lemma child_descendant: "c \<in> set cs \<Longrightarrow> c \<in> set (descendants (Tag j n a cs))"
  by auto

lemma descendants_of_child:
  "c \<in> set cs \<Longrightarrow> set (descendants c) \<subseteq> set (descendants (Tag j n a cs))"
  by auto

lemma prune_agree:
  "X \<inter> refs (descendants t) = Y \<inter> refs (descendants t) \<Longrightarrow> prune X t = prune Y t"
proof (induction t)
  case (Tag j n a cs)
  have r: "referenced X c = referenced Y c" if "c \<in> set cs" for c
  proof (cases "ident c")
    case None
    then show ?thesis by (simp add: referenced_def)
  next
    case (Some i)
    with that child_descendant [of c cs j n a] have "i \<in> refs (descendants (Tag j n a cs))"
      unfolding refs_iff by blast
    with Tag.prems have "i \<in> X \<longleftrightarrow> i \<in> Y" by blast
    with Some show ?thesis by (simp add: referenced_def)
  qed
  have p: "prune X c = prune Y c" if "c \<in> set cs" for c
  proof -
    from descendants_of_child [OF that, of j n a]
    have "refs (descendants c) \<subseteq> refs (descendants (Tag j n a cs))"
      unfolding refs_iff subset_iff by blast
    with Tag.prems have "X \<inter> refs (descendants c) = Y \<inter> refs (descendants c)" by blast
    with that show ?thesis by (rule Tag.IH)
  qed
  have "filter (\<lambda>c. \<not> referenced X c) cs = filter (\<lambda>c. \<not> referenced Y c) cs"
    using r by (simp cong: filter_cong)
  moreover have "map (prune X) (filter (\<lambda>c. \<not> referenced Y c) cs) =
      map (prune Y) (filter (\<lambda>c. \<not> referenced Y c) cs)"
    using p by simp
  ultimately show ?case by simp
qed simp

lemma remove_two:
  assumes "select L A region = Inr ma"
    and "select L B (foldl (\<lambda>t element. decompose element t) region ma) = Inr mb'"
  shows "remove_elements L [A, B] region = Inr (prune (refs mb') (prune (refs ma) region))"
  using assms by (simp add: decompose_all_prune)

text \<open>
  Claim C9, as amended. Let the content selector select a region, and let the noise
  selectors \<open>A\<close> and \<open>B\<close> select disjoint sets of tags in it. If moreover each of the two,
  applied to the region from which the tags selected by the other have been removed,
  selects among the tags still present exactly those it selected in the untouched region,
  then extraction with the noise list \<open>[A, B]\<close> and with \<open>[B, A]\<close> gives the same result.
\<close>

theorem noise_order_irrelevant_when_selection_stable:
  assumes "select L (content_selector cfg) (BeautifulSoup L html) = Inr (region # others)"
    and "select L A region = Inr ma" and "select L B region = Inr mb"
    and "refs ma \<inter> refs mb = {}"
    and "select L B (foldl (\<lambda>t element. decompose element t) region ma) = Inr mb'"
    and "refs mb' \<inter> refs (descendants (foldl (\<lambda>t element. decompose element t) region ma)) =
         refs mb \<inter> refs (descendants (foldl (\<lambda>t element. decompose element t) region ma))"
    and "select L A (foldl (\<lambda>t element. decompose element t) region mb) = Inr ma'"
    and "refs ma' \<inter> refs (descendants (foldl (\<lambda>t element. decompose element t) region mb)) =
         refs ma \<inter> refs (descendants (foldl (\<lambda>t element. decompose element t) region mb))"
  shows "clean_and_convert L html (cfg\<lparr>elements_to_remove := [A, B]\<rparr>) w =
         clean_and_convert L html (cfg\<lparr>elements_to_remove := [B, A]\<rparr>) w"
proof -
  have "prune (refs mb') (prune (refs ma) region) = prune (refs mb) (prune (refs ma) region)"
    using assms(6) unfolding decompose_all_prune by (rule prune_agree)
  with remove_two [OF assms(2,5)]
  have ab: "remove_elements L [A, B] region = Inr (prune (refs ma \<union> refs mb) region)"
    by (simp add: prune_prune)
  have "prune (refs ma') (prune (refs mb) region) = prune (refs ma) (prune (refs mb) region)"
    using assms(8) unfolding decompose_all_prune by (rule prune_agree)
  with remove_two [OF assms(3,7)]
  have ba: "remove_elements L [B, A] region = Inr (prune (refs ma \<union> refs mb) region)"
    by (simp add: prune_prune Un_commute)
  from ab ba select_one_first [OF assms(1)] show ?thesis
    by (simp add: clean_and_convert_def)
qed

lemma article_has_main:
  "select sample (content_selector x_plan) (BeautifulSoup sample article_html) =
     Inr (article_region # [])"
  by code_simp

lemma h1_in_article:
  "select sample ''h1'' article_region = Inr [Tag 2 ''h1'' [] [NavigableString ''T'']]"
  by code_simp

lemma p_in_article:
  "select sample ''p'' article_region =
     Inr [Tag 3 ''p'' [] [NavigableString ''a''], Tag 4 ''p'' [] [NavigableString ''b'']]"
  by code_simp

lemma h1_p_disjoint:
  "refs [Tag 2 ''h1'' [] [NavigableString ''T'']] \<inter>
   refs [Tag 3 ''p'' [] [NavigableString ''a''], Tag 4 ''p'' [] [NavigableString ''b'']] = {}"
  by code_simp

lemma p_after_h1:
  "select sample ''p'' (foldl (\<lambda>t element. decompose element t) article_region
       [Tag 2 ''h1'' [] [NavigableString ''T'']]) =
     Inr [Tag 3 ''p'' [] [NavigableString ''a''], Tag 4 ''p'' [] [NavigableString ''b'']]"
  by code_simp

lemma h1_after_p:
  "select sample ''h1'' (foldl (\<lambda>t element. decompose element t) article_region
       [Tag 3 ''p'' [] [NavigableString ''a''], Tag 4 ''p'' [] [NavigableString ''b'']]) =
     Inr [Tag 2 ''h1'' [] [NavigableString ''T'']]"
  by code_simp

theorem noise_order_irrelevant_when_selection_stable_witness:
  "select sample (content_selector x_plan) (BeautifulSoup sample article_html) =
     Inr [article_region] \<and>
   select sample ''h1'' article_region = Inr [Tag 2 ''h1'' [] [NavigableString ''T'']] \<and>
   select sample ''p'' article_region =
     Inr [Tag 3 ''p'' [] [NavigableString ''a''], Tag 4 ''p'' [] [NavigableString ''b'']] \<and>
   clean_and_convert sample article_html (x_plan\<lparr>elements_to_remove := [''h1'', ''p'']\<rparr>) fresh =
   clean_and_convert sample article_html (x_plan\<lparr>elements_to_remove := [''p'', ''h1'']\<rparr>) fresh"
  using noise_order_irrelevant_when_selection_stable
          [OF article_has_main h1_in_article p_in_article h1_p_disjoint p_after_h1 refl
              h1_after_p refl, of fresh]
    article_has_main h1_in_article p_in_article
  by (simp only: simp_thms)

text \<open>
  Claim C9 as stated fails: in the region of the third content page the selectors
  \<^verbatim>\<open>p:first-child\<close> and \<^verbatim>\<open>h1\<close> select disjoint sets of tags (the paragraph in the
  box, and the heading), yet removing the heading first makes the first paragraph a first
  child, and it goes too.
\<close>

theorem noise_order_matters:
  "select sample ''p:first-child'' guide_region = Inr [Tag 6 ''p'' [] [NavigableString ''c'']] \<and>
   select sample ''h1'' guide_region = Inr [Tag 2 ''h1'' [] [NavigableString ''T'']] \<and>
   refs [Tag 6 ''p'' [] [NavigableString ''c'']] \<inter>
     refs [Tag 2 ''h1'' [] [NavigableString ''T'']] = {} \<and>
   remove_elements sample [''p:first-child'', ''h1''] guide_region =
     Inr (Tag 1 ''main'' []
            [Tag 3 ''p'' [] [NavigableString ''a''], Tag 4 ''p'' [] [NavigableString ''b''],
             Tag 5 ''div'' [] []]) \<and>
   remove_elements sample [''h1'', ''p:first-child''] guide_region =
     Inr (Tag 1 ''main'' [] [Tag 4 ''p'' [] [NavigableString ''b''], Tag 5 ''div'' [] []]) \<and>
   fst (clean_and_convert sample guide_html
          (x_plan\<lparr>elements_to_remove := [''p:first-child'', ''h1'']\<rparr>) fresh) = Inr ''ab'' \<and>
   fst (clean_and_convert sample guide_html
          (x_plan\<lparr>elements_to_remove := [''h1'', ''p:first-child'']\<rparr>) fresh) = Inr ''b''"
  by code_simp

section \<open>The static batch on the sample site\<close>

text \<open>
  The three URLs discovered on \<^verbatim>\<open>https://x/\<close>, the second of which the server answers
  with status 404: the batch writes exactly the artifacts of the first and the third and
  logs exactly one warning.
\<close>

lemma article_cleaned:
  "remove_elements sample (elements_to_remove x_plan) article_region = Inr article_region"
  by code_simp

lemma article_converted: "md_str sample article_region = ''Tab''"
  by code_simp

lemma article_extracted: "clean_and_convert sample article_html x_plan w = (Inr ''Tab'', w)"
  using clean_and_convert_region [OF article_has_main article_cleaned, of w]
  by (simp only: article_converted)

lemma a_served: "sample_get ''https://x/a.html'' = Inr (200, article_html)"
  by code_simp

lemma b_served: "sample_get ''https://x/b.html'' = Inr (404, [])"
  by code_simp

lemma c_served: "sample_get ''https://x/c.html'' = Inr (200, article_html)"
  by code_simp

lemma c_path: "path_join (output_dir x_plan) ''c.md'' = ''scraped_docs_x/c.md''"
  by code_simp

lemma a_task:
  "fetch_and_save_static sample ''https://x/a.html'' x_plan w =
     write_file ''scraped_docs_x/a.md'' (Markdown ''Tab'') w"
proof -
  have "session_get sample ''https://x/a.html'' = Inr (200, article_html)"
    using a_served by (simp add: sample_def)
  then show ?thesis
    by (simp add: fetch_and_save_static_def article_extracted a_filename a_path)
qed

lemma b_task:
  "fetch_and_save_static sample ''https://x/b.html'' x_plan w =
     logging WARNING
       (StaticUrlFailed ''https://x/b.html'' (OtherException ''ClientResponseError'')) w"
proof -
  have "session_get sample ''https://x/b.html'' = Inr (404, [])"
    using b_served by (simp add: sample_def)
  then show ?thesis by (simp add: fetch_and_save_static_def)
qed

lemma c_task:
  "fetch_and_save_static sample ''https://x/c.html'' x_plan w =
     write_file ''scraped_docs_x/c.md'' (Markdown ''Tab'') w"
proof -
  have "session_get sample ''https://x/c.html'' = Inr (200, article_html)"
    using c_served by (simp add: sample_def)
  then show ?thesis
    by (simp add: fetch_and_save_static_def article_extracted c_filename c_path)
qed

lemma x_plan_static: "fetch_strategy x_plan \<noteq> ''dynamic''"
  by code_simp

lemma static_three_urls_world:
  "execute_scrape sample entry_html x_plan fresh =
     (Inr (),
      \<lparr>files = [''scraped_docs_x/a.md'' \<mapsto> Markdown ''Tab'',
                ''scraped_docs_x/c.md'' \<mapsto> Markdown ''Tab''],
       logs = [(WARNING,
                StaticUrlFailed ''https://x/b.html'' (OtherException ''ClientResponseError''))]\<rparr>)"
proof -
  have g: "gather_order sample = (\<lambda>urls. urls)" by (simp add: sample_def)
  show ?thesis
    by (simp add: execute_scrape_def static_three_urls_discovered x_plan_static g
        a_task b_task c_task write_file_def logging_def fresh_def)
qed

lemma static_three_urls_two_artifacts:
  "dom (files (snd (execute_scrape sample entry_html x_plan fresh))) =
     {''scraped_docs_x/a.md'', ''scraped_docs_x/c.md''} \<and>
   card (dom (files (snd (execute_scrape sample entry_html x_plan fresh)))) = 2 \<and>
   length (logs (snd (execute_scrape sample entry_html x_plan fresh))) = 1"
  by (simp add: static_three_urls_world insert_commute)

text \<open>The output directory of the declared manual plan.\<close>

lemma ros_output_dir: "output_dir ROS_HUMBLE_CONFIG = ''scraped_docs_ros_humble_manual''"
  by (simp add: ROS_HUMBLE_CONFIG_def Config_def)

text \<open>The site root derives the default file name.\<close>

lemma index_filename: "generate_safe_filename sample ''https://w/'' w_plan = ''index.md''"
  by code_simp

end
